theory Spec2Isabelle
  imports Complex_Main
begin

section \<open>KATCP messages and the wire codec (katcp.py)\<close>

text \<open>
  Python 2 byte strings are modelled as \<open>string\<close> (lists of 8-bit characters).
  The bytes the codec treats specially are named once.
\<close>

abbreviation BACKSLASH :: char where "BACKSLASH \<equiv> CHR 0x5C"
abbreviation SPACE :: char where "SPACE \<equiv> CHR 0x20"
abbreviation NUL :: char where "NUL \<equiv> CHR 0x00"
abbreviation LF :: char where "LF \<equiv> CHR 0x0A"
abbreviation CR :: char where "CR \<equiv> CHR 0x0D"
abbreviation ESC :: char where "ESC \<equiv> CHR 0x1B"
abbreviation TAB :: char where "TAB \<equiv> CHR 0x09"
abbreviation DASH :: char where "DASH \<equiv> CHR 0x2D"

text \<open>\<^verbatim>\<open>Message.REQUEST, REPLY, INFORM = range(3)\<close>\<close>

datatype mtype = REQUEST | REPLY | INFORM

text \<open>\<^verbatim>\<open>Message.__init__(self, mtype, name, arguments)\<close> of katcp.py.\<close>

record message =
  mtype :: mtype
  name :: string
  arguments :: "string list"

text \<open>The exceptions that leave the parser.  \<open>StopIteration\<close> is what Python 2 raises
  when \<^verbatim>\<open>tail_iter.next()\<close> is called on an exhausted iterator inside the loop body.\<close>

datatype parse_error = DclSyntaxError | StopIteration

fun TYPE_SYMBOLS :: "mtype \<Rightarrow> char" where
  "TYPE_SYMBOLS REQUEST = CHR ''?''"
| "TYPE_SYMBOLS REPLY = CHR ''!''"
| "TYPE_SYMBOLS INFORM = CHR ''#''"

definition TYPE_SYMBOL_LOOKUP :: "char \<Rightarrow> mtype option" where
  "TYPE_SYMBOL_LOOKUP c =
     (if c = CHR ''?'' then Some REQUEST
      else if c = CHR ''!'' then Some REPLY
      else if c = CHR ''#'' then Some INFORM
      else None)"

definition ESCAPE_LOOKUP :: "char \<Rightarrow> char option" where
  "ESCAPE_LOOKUP k =
     (if k = BACKSLASH then Some BACKSLASH
      else if k = SPACE then Some SPACE
      else if k = CHR ''0'' then Some NUL
      else if k = CHR ''n'' then Some LF
      else if k = CHR ''r'' then Some CR
      else if k = CHR ''e'' then Some ESC
      else if k = CHR ''t'' then Some TAB
      else None)"

definition REVERSE_ESCAPE_LOOKUP :: "char \<Rightarrow> char option" where
  "REVERSE_ESCAPE_LOOKUP v =
     (if v = BACKSLASH then Some BACKSLASH
      else if v = SPACE then Some SPACE
      else if v = NUL then Some (CHR ''0'')
      else if v = LF then Some (CHR ''n'')
      else if v = CR then Some (CHR ''r'')
      else if v = ESC then Some (CHR ''e'')
      else if v = TAB then Some (CHR ''t'')
      else None)"

text \<open>\<^verbatim>\<open>ESCAPE_RE = re.compile(r"[\\ \0\n\r\x1b\t]")\<close>: the one-byte class it matches.\<close>

definition ESCAPE_RE :: "char \<Rightarrow> bool" where
  "ESCAPE_RE c \<longleftrightarrow> c \<in> {BACKSLASH, SPACE, NUL, LF, CR, ESC, TAB}"

text \<open>\<^verbatim>\<open>_escape_match\<close>: backslash followed by the reverse lookup of the matched byte.
  The lookup cannot miss on a byte the expression matched; the model leaves such a byte as it is.\<close>

definition escape_match :: "char \<Rightarrow> string" where
  "escape_match c =
     (case REVERSE_ESCAPE_LOOKUP c of Some k \<Rightarrow> [BACKSLASH, k] | None \<Rightarrow> [c])"

text \<open>\<^verbatim>\<open>ESCAPE_RE.sub(self._escape_match, x)\<close>\<close>

definition escape_sub :: "string \<Rightarrow> string" where
  "escape_sub x = concat (map (\<lambda>c. if ESCAPE_RE c then escape_match c else [c]) x)"

text \<open>\<^verbatim>\<open>" ".join(xs)\<close>\<close>

fun join_sp :: "string list \<Rightarrow> string" where
  "join_sp [] = []"
| "join_sp [x] = x"
| "join_sp (x # y # ys) = x @ SPACE # join_sp (y # ys)"

text \<open>\<^verbatim>\<open>Message.__str__\<close>\<close>

definition str :: "message \<Rightarrow> string" where
  "str m =
     (let arg_str = (if arguments m \<noteq> [] then SPACE # join_sp (map escape_sub (arguments m))
                     else [])
      in TYPE_SYMBOLS (mtype m) # name m @ arg_str)"

text \<open>\<^verbatim>\<open>MessageParser.SPECIAL\<close>\<close>

definition SPECIAL :: "char set" where
  "SPECIAL = {SPACE, TAB, ESC, LF, CR, BACKSLASH, NUL}"

text \<open>The \<^verbatim>\<open>for char in tail_iter\<close> loop of \<^verbatim>\<open>_parse_arguments\<close>, with the loop
  variables \<^verbatim>\<open>arg\<close> and \<^verbatim>\<open>arguments\<close> as accumulators.  After a backslash the body
  takes the next byte itself; when there is none, \<^verbatim>\<open>next()\<close> raises \<open>StopIteration\<close>,
  which the \<^verbatim>\<open>for\<close> statement does not catch.\<close>

fun parse_arguments_loop :: "string \<Rightarrow> string \<Rightarrow> string list \<Rightarrow> parse_error + string list" where
  "parse_arguments_loop [] arg args = Inr (args @ [arg])"
| "parse_arguments_loop (c # cs) arg args =
     (if c = BACKSLASH then
        (case cs of
           [] \<Rightarrow> Inl StopIteration
         | k # cs' \<Rightarrow>
             (case ESCAPE_LOOKUP k of
                Some v \<Rightarrow> parse_arguments_loop cs' (arg @ [v]) args
              | None \<Rightarrow> Inl DclSyntaxError))
      else if c = SPACE then parse_arguments_loop cs [] (args @ [arg])
      else if c \<notin> SPECIAL then parse_arguments_loop cs (arg @ [c]) args
      else Inl DclSyntaxError)"

text \<open>\<^verbatim>\<open>MessageParser._parse_arguments(sep, tail)\<close>\<close>

definition parse_arguments :: "string \<Rightarrow> string \<Rightarrow> parse_error + string list" where
  "parse_arguments sep tail = (if sep = [] then Inr [] else parse_arguments_loop tail [] [])"

text \<open>\<^verbatim>\<open>line.partition(" ")\<close>: the part before the first space, the separator (empty when
  the line has no space) and the part after it.\<close>

definition partition_sp :: "string \<Rightarrow> string \<times> string \<times> string" where
  "partition_sp line =
     (if SPACE \<in> set line
      then (takeWhile (\<lambda>c. c \<noteq> SPACE) line, [SPACE], tl (dropWhile (\<lambda>c. c \<noteq> SPACE) line))
      else (line, [], []))"

text \<open>\<^verbatim>\<open>str.isalpha\<close> and \<^verbatim>\<open>str.isalnum\<close> of Python 2 in the C locale: ASCII letters and
  digits; both are false on the empty string.\<close>

definition is_alpha_char :: "char \<Rightarrow> bool" where
  "is_alpha_char c \<longleftrightarrow>
     (let n = (of_char c :: nat) in (65 \<le> n \<and> n \<le> 90) \<or> (97 \<le> n \<and> n \<le> 122))"

definition is_digit_char :: "char \<Rightarrow> bool" where
  "is_digit_char c \<longleftrightarrow> (let n = (of_char c :: nat) in 48 \<le> n \<and> n \<le> 57)"

definition isalpha :: "string \<Rightarrow> bool" where
  "isalpha s \<longleftrightarrow> s \<noteq> [] \<and> list_all is_alpha_char s"

definition isalnum :: "string \<Rightarrow> bool" where
  "isalnum s \<longleftrightarrow> s \<noteq> [] \<and> list_all (\<lambda>c. is_alpha_char c \<or> is_digit_char c) s"

text \<open>\<^verbatim>\<open>name.replace("-", "")\<close>\<close>

definition replace_dash :: "string \<Rightarrow> string" where
  "replace_dash s = filter (\<lambda>c. c \<noteq> DASH) s"

text \<open>\<^verbatim>\<open>MessageParser.parse(line)\<close>\<close>

definition parse :: "string \<Rightarrow> parse_error + message" where
  "parse line =
     (case partition_sp line of (type_name, sep, tail) \<Rightarrow>
        (case type_name of
           [] \<Rightarrow> Inl DclSyntaxError
         | type_char # nm \<Rightarrow>
             (case TYPE_SYMBOL_LOOKUP type_char of
                None \<Rightarrow> Inl DclSyntaxError
              | Some mt \<Rightarrow>
                  if nm = [] then Inl DclSyntaxError
                  else if \<not> isalnum (replace_dash nm) then Inl DclSyntaxError
                  else if \<not> isalpha [hd nm] then Inl DclSyntaxError
                  else (case parse_arguments sep tail of
                          Inl e \<Rightarrow> Inl e
                        | Inr args \<Rightarrow> Inr \<lparr>mtype = mt, name = nm, arguments = args\<rparr>))))"

text \<open>The name grammar of the protocol, \<^verbatim>\<open>[A-Za-z][A-Za-z0-9-]*\<close>, written from the
  specification's words: it says which messages count as well formed.\<close>

definition well_formed_name :: "string \<Rightarrow> bool" where
  "well_formed_name n \<longleftrightarrow>
     (case n of
        [] \<Rightarrow> False
      | c # cs \<Rightarrow> is_alpha_char c \<and>
          list_all (\<lambda>d. is_alpha_char d \<or> is_digit_char d \<or> d = DASH) cs)"

section \<open>The line framer (client.py, \<^verbatim>\<open>DeviceClient._handle_chunk\<close>)\<close>

text \<open>
  \<^verbatim>\<open>_handle_chunk\<close> reads and writes \<^verbatim>\<open>self._waiting_chunk\<close>, calls the parser on every
  complete non-empty line, and either hands the message to \<^verbatim>\<open>handle_message\<close> or logs
  \<^verbatim>\<open>BAD COMMAND\<close>.  The two calls are recorded, in order, in \<open>dispatched\<close>.  The parser
  of client.py is imported from a module that is not part of the sources at hand, so the
  framer takes the parser as a parameter; any exception it raises is caught by
  \<^verbatim>\<open>except Exception\<close>.
\<close>

datatype ('e, 'm) dispatch = HandleMessage 'm | LogBadCommand 'e

record ('e, 'm) framer =
  waiting_chunk :: string
  dispatched :: "('e, 'm) dispatch list"

text \<open>\<^verbatim>\<open>chunk.replace("\r", "\n")\<close>\<close>

definition replace_cr :: "string \<Rightarrow> string" where
  "replace_cr chunk = map (\<lambda>c. if c = CR then LF else c) chunk"

text \<open>\<^verbatim>\<open>chunk.split("\n")\<close>: never the empty list, so the last alternative is not taken.\<close>

fun split_lf :: "string \<Rightarrow> string list" where
  "split_lf [] = [[]]"
| "split_lf (c # cs) =
     (if c = LF then [] # split_lf cs
      else (case split_lf cs of l # ls \<Rightarrow> (c # l) # ls | [] \<Rightarrow> [[c]]))"

text \<open>The body of \<^verbatim>\<open>for line in lines[:-1]\<close>.\<close>

fun handle_lines ::
  "(string \<Rightarrow> 'e + 'm) \<Rightarrow> string list \<Rightarrow> ('e, 'm) framer \<Rightarrow> ('e, 'm) framer" where
  "handle_lines prs [] st = st"
| "handle_lines prs (line # ls) st =
     (let full_line = waiting_chunk st @ line;
          st1 = st\<lparr>waiting_chunk := []\<rparr>;
          st2 = (if full_line \<noteq> [] then
                   (case prs full_line of
                      Inl e \<Rightarrow> st1\<lparr>dispatched := dispatched st1 @ [LogBadCommand e]\<rparr>
                    | Inr msg \<Rightarrow> st1\<lparr>dispatched := dispatched st1 @ [HandleMessage msg]\<rparr>)
                 else st1)
      in handle_lines prs ls st2)"

definition handle_chunk ::
  "(string \<Rightarrow> 'e + 'm) \<Rightarrow> ('e, 'm) framer \<Rightarrow> string \<Rightarrow> ('e, 'm) framer" where
  "handle_chunk prs st chunk =
     (let lines = split_lf (replace_cr chunk);
          st' = handle_lines prs (butlast lines) st
      in st'\<lparr>waiting_chunk := waiting_chunk st' @ last lines\<rparr>)"

text \<open>The read loop calls \<^verbatim>\<open>_handle_chunk\<close> once for every chunk it receives.\<close>

definition handle_chunks ::
  "(string \<Rightarrow> 'e + 'm) \<Rightarrow> ('e, 'm) framer \<Rightarrow> string list \<Rightarrow> ('e, 'm) framer" where
  "handle_chunks prs st chunks = foldl (handle_chunk prs) st chunks"

text \<open>What one byte does to the framer: a terminator closes the line collected so far,
  any other byte is appended to it.  Used to reason about \<open>handle_chunk\<close>.\<close>

definition close_line :: "(string \<Rightarrow> 'e + 'm) \<Rightarrow> ('e, 'm) framer \<Rightarrow> ('e, 'm) framer" where
  "close_line prs st = handle_lines prs [[]] st"

definition feed_byte :: "(string \<Rightarrow> 'e + 'm) \<Rightarrow> ('e, 'm) framer \<Rightarrow> char \<Rightarrow> ('e, 'm) framer" where
  "feed_byte prs st c =
     (if c = LF \<or> c = CR then close_line prs st
      else st\<lparr>waiting_chunk := waiting_chunk st @ [c]\<rparr>)"

section \<open>Messages with identifiers (the \<^verbatim>\<open>Message\<close> class client.py imports)\<close>

text \<open>
  Modelled from the spec: client.py imports \<^verbatim>\<open>Message\<close> from a module \<^verbatim>\<open>core\<close> that
  is not among the sources.  By the spec it is the message of katcp.py with one more field,
  the optional message identifier \<^verbatim>\<open>mid\<close>, a decimal string that is not mixed into the
  arguments.
\<close>

record cmessage = message +
  mid :: "string option"

text \<open>Modelled from the spec: \<^verbatim>\<open>Message.request(name, *args)\<close> and
  \<^verbatim>\<open>Message.reply(name, *args)\<close>, the way client.py calls them.  As in katcp.py, the
  helper \<^verbatim>\<open>request\<close> builds a message of type \<open>REQUEST\<close> and \<^verbatim>\<open>reply\<close> one of type
  \<open>REPLY\<close>; a new message has no identifier.\<close>

definition Message_request :: "string \<Rightarrow> string list \<Rightarrow> cmessage" where
  "Message_request nm args = \<lparr>mtype = REQUEST, name = nm, arguments = args, mid = None\<rparr>"

definition Message_reply :: "string \<Rightarrow> string list \<Rightarrow> cmessage" where
  "Message_reply nm args = \<lparr>mtype = REPLY, name = nm, arguments = args, mid = None\<rparr>"

text \<open>Modelled from the spec: the serializer of messages with identifiers, which writes the
  identifier in brackets after the name (\<^verbatim>\<open>?name[mid] arg1 arg2\<close>).\<close>

definition core_str :: "cmessage \<Rightarrow> string" where
  "core_str m =
     (let mid_str = (case mid m of None \<Rightarrow> [] | Some i \<Rightarrow> ''['' @ i @ '']'');
          arg_str = (if arguments m \<noteq> [] then SPACE # join_sp (map escape_sub (arguments m))
                     else [])
      in TYPE_SYMBOLS (mtype m) # name m @ mid_str @ arg_str)"

section \<open>Python values used by the client\<close>

text \<open>\<^verbatim>\<open>str(n)\<close> for a non-negative integer.\<close>

definition digit_char :: "nat \<Rightarrow> char" where
  "digit_char d = ''0123456789'' ! (d mod 10)"

fun decimal :: "nat \<Rightarrow> string" where
  "decimal n = (if n < 10 then [digit_char n] else decimal (n div 10) @ [digit_char (n mod 10)])"

declare decimal.simps [simp del]

text \<open>
  A Python float is modelled by the rational number it stands for.  \<^verbatim>\<open>"%f" % x\<close> prints
  \<open>x\<close> rounded to six places after the point (ties to even), with all six places written.
\<close>

definition round_half_even :: "rat \<Rightarrow> int" where
  "round_half_even y =
     (let f = \<lfloor>y\<rfloor>; d = y - of_int f
      in if d < 1 / 2 then f else if 1 / 2 < d then f + 1 else if even f then f else f + 1)"

definition format_f :: "rat \<Rightarrow> string" where
  "format_f x =
     (let n = nat (round_half_even (\<bar>x\<bar> * 1000000));
          frac = decimal (n mod 1000000)
      in (if x < 0 then ''-'' else []) @ decimal (n div 1000000) @ ''.''
           @ replicate (6 - length frac) (CHR ''0'') @ frac)"

text \<open>The double nearest to 0.05, which is what the literal \<^verbatim>\<open>0.05\<close> denotes.\<close>

definition float_0_05 :: rat where
  "float_0_05 = 3602879701896397 / 72057594037927936"

section \<open>The connection engine (client.py, \<^verbatim>\<open>DeviceClient\<close>)\<close>

text \<open>
  A client object is a record of its attributes.  What a method does to the world outside
  the object (socket calls, the error log, timers, calls of user callbacks and of the
  overridable handlers) is appended to \<open>events\<close> in the order it happens.  Callbacks are
  opaque: a callable is known by an identifier and its call is recorded, not run.  Debug
  logging is left out.
\<close>

type_synonym callback = nat
type_synonym user_data = "string list"

text \<open>\<^verbatim>\<open>threading.Timer(timeout, self._handle_timeout, (msg.mid,))\<close>\<close>

record timer =
  interval :: rat
  timer_args :: "string option"

datatype event =
    LogError
  | SockSend nat string
  | SockClose nat
  | NotifyConnected bool
  | BaseHandleReply cmessage
  | BaseHandleInform cmessage
  | ReplyCb callback cmessage "user_data option"
  | InformCb callback cmessage "user_data option"
  | TimerStart timer
  | TimerCancel timer

datatype client_error =
    KatcpClientError string
  | KatcpVersionError
  | AssertionError
  | UnboundLocalError
  | AttributeError
  | KeyError
  | ValueError
  | RuntimeError

record device_client =
  sock :: "nat option"
  connected_event :: bool
  received_protocol_info :: bool
  server_supports_ids :: bool
  last_msg_id :: nat
  events :: "event list"

text \<open>\<^verbatim>\<open>DeviceClient.__init__\<close>\<close>

definition DeviceClient_init :: device_client where
  "DeviceClient_init =
     \<lparr>sock = None, connected_event = False, received_protocol_info = False,
      server_supports_ids = False, last_msg_id = 0, events = []\<rparr>"

definition emit :: "event \<Rightarrow> 'a device_client_scheme \<Rightarrow> 'a device_client_scheme" where
  "emit e s = s\<lparr>events := events s @ [e]\<rparr>"

text \<open>\<^verbatim>\<open>_next_id\<close>\<close>

definition next_id :: "'a device_client_scheme \<Rightarrow> string \<times> 'a device_client_scheme" where
  "next_id s = (decimal (last_msg_id s + 1), s\<lparr>last_msg_id := last_msg_id s + 1\<rparr>)"

text \<open>\<^verbatim>\<open>inform_version_connect\<close>.  \<^verbatim>\<open>ProtocolFlags\<close> is not among the sources; the
  parameter \<open>supports_ids\<close> stands for
  \<^verbatim>\<open>ProtocolFlags.parse_version(v).supports(ProtocolFlags.MESSAGE_IDS)\<close>.\<close>

definition inform_version_connect ::
  "(string \<Rightarrow> bool) \<Rightarrow> cmessage \<Rightarrow> 'a device_client_scheme \<Rightarrow> 'a device_client_scheme" where
  "inform_version_connect supports_ids msg s =
     (case arguments msg of
        a0 # a1 # _ \<Rightarrow>
          if a0 = ''katcp-protocol''
          then s\<lparr>server_supports_ids := supports_ids a1, received_protocol_info := True\<rparr>
          else s
      | _ \<Rightarrow> s)"

text \<open>\<^verbatim>\<open>_disconnect\<close>; the upcall \<^verbatim>\<open>notify_connected(False)\<close> is recorded.\<close>

definition disconnect :: "'a device_client_scheme \<Rightarrow> 'a device_client_scheme" where
  "disconnect s =
     (case sock s of
        None \<Rightarrow> s
      | Some sk \<Rightarrow>
          s\<lparr>sock := None, connected_event := False,
            events := events s @ [SockClose sk, NotifyConnected False]\<rparr>)"

text \<open>The branch of \<^verbatim>\<open>_connect\<close> in which the connection is made: the socket is stored,
  \<^verbatim>\<open>_connected\<close> is set and \<^verbatim>\<open>notify_connected(True)\<close> is called.\<close>

definition connect_ok :: "nat \<Rightarrow> 'a device_client_scheme \<Rightarrow> 'a device_client_scheme" where
  "connect_ok sk s = emit (NotifyConnected True) (s\<lparr>sock := Some sk, connected_event := True\<rparr>)"

text \<open>
  What one call of \<^verbatim>\<open>sock.send\<close> does is given by the environment: it returns the number
  of bytes taken, or raises \<^verbatim>\<open>socket.error\<close>; the flag says whether the error is the
  transient one (\<^verbatim>\<open>len(e.args) == 2 and e.args[0] == errno.EAGAIN\<close>).  The loop of
  \<^verbatim>\<open>send_message\<close> consumes one answer per call.  It can retry for ever; when the answers
  run out before it ends the result is \<open>None\<close>.  The loop returns \<^verbatim>\<open>send_failed\<close>,
  whether the local variable \<^verbatim>\<open>e\<close> has been bound by an \<^verbatim>\<open>except\<close> clause, and the
  client.
\<close>

datatype send_result = Sent nat | SocketError bool

fun send_loop ::
  "send_result list \<Rightarrow> nat \<Rightarrow> string \<Rightarrow> nat \<Rightarrow> bool \<Rightarrow> 'a device_client_scheme
     \<Rightarrow> (bool \<times> bool \<times> 'a device_client_scheme) option" where
  "send_loop [] sk data totalsent e_bound s =
     (if totalsent < length data then None else Some (False, e_bound, s))"
| "send_loop (r # script) sk data totalsent e_bound s =
     (if totalsent < length data then
        (let s1 = emit (SockSend sk (drop totalsent data)) s in
         case r of
           SocketError eagain \<Rightarrow>
             if eagain \<and> sock s1 = Some sk then send_loop script sk data totalsent True s1
             else Some (True, True, s1)
         | Sent sent \<Rightarrow>
             if sent = 0 then Some (True, e_bound, s1)
             else send_loop script sk data (totalsent + sent) e_bound s1)
      else Some (False, e_bound, s))"

text \<open>\<^verbatim>\<open>send_message\<close>.  After a failed send the error message is formatted from
  \<^verbatim>\<open>e\<close>; when no \<^verbatim>\<open>except\<close> clause has bound it, Python raises
  \<open>UnboundLocalError\<close> there, before the error is logged and before \<^verbatim>\<open>_disconnect\<close>.\<close>

definition send_message ::
  "send_result list \<Rightarrow> 'a device_client_scheme \<Rightarrow> cmessage
     \<Rightarrow> ((client_error + unit) \<times> 'a device_client_scheme) option" where
  "send_message script s msg =
     (let data = core_str msg @ [LF] in
      case sock s of
        None \<Rightarrow> Some (Inl (KatcpClientError ''Client not connected''), s)
      | Some sk \<Rightarrow>
          (case send_loop script sk data 0 False s of
             None \<Rightarrow> None
           | Some (send_failed, e_bound, s1) \<Rightarrow>
               if send_failed then
                 (if e_bound then Some (Inr (), disconnect (emit LogError s1))
                  else Some (Inl UnboundLocalError, s1))
               else Some (Inr (), s1)))"

text \<open>The first part of \<^verbatim>\<open>DeviceClient.request(msg, use_mid=None)\<close>: the default of
  \<^verbatim>\<open>use_mid\<close> is resolved from \<^verbatim>\<open>_server_supports_ids\<close> and, when identifiers are to be
  used and the message has none, the next identifier is assigned to \<^verbatim>\<open>msg.mid\<close>.\<close>

definition resolve_mid ::
  "'a device_client_scheme \<Rightarrow> cmessage \<Rightarrow> bool option \<Rightarrow> cmessage \<times> 'a device_client_scheme" where
  "resolve_mid s msg use_mid =
     (let use_mid' = (case use_mid of None \<Rightarrow> server_supports_ids s | Some b \<Rightarrow> b)
      in if use_mid' then
           (case mid msg of
              None \<Rightarrow> (case next_id s of (i, s') \<Rightarrow> (msg\<lparr>mid := Some i\<rparr>, s'))
            | Some _ \<Rightarrow> (msg, s))
         else (msg, s))"

text \<open>\<^verbatim>\<open>DeviceClient.request\<close>.  The method assigns to \<^verbatim>\<open>msg.mid\<close>, so the message is
  returned with the result.\<close>

definition DeviceClient_request ::
  "send_result list \<Rightarrow> 'a device_client_scheme \<Rightarrow> cmessage \<Rightarrow> bool option
     \<Rightarrow> ((client_error + unit) \<times> cmessage \<times> 'a device_client_scheme) option" where
  "DeviceClient_request script s msg use_mid =
     (if mtype msg \<noteq> REQUEST then Some (Inl AssertionError, msg, s)
      else
        case resolve_mid s msg use_mid of (msg1, s1) \<Rightarrow>
          if \<not> server_supports_ids s1 \<and> mid msg1 \<noteq> None
          then Some (Inl KatcpVersionError, msg1, s1)
          else (case send_message script s1 msg1 of
                  None \<Rightarrow> None
                | Some (r, s2) \<Rightarrow> Some (r, msg1, s2)))"

text \<open>No handshake seen means no identifier support: \<^verbatim>\<open>_server_supports_ids\<close> starts as
  \<^verbatim>\<open>False\<close> and only \<^verbatim>\<open>inform_version_connect\<close> assigns to it, together with setting
  \<^verbatim>\<open>_received_protocol_info\<close>.\<close>

definition handshake_inv :: "'a device_client_scheme \<Rightarrow> bool" where
  "handshake_inv s \<longleftrightarrow> (server_supports_ids s \<longrightarrow> received_protocol_info s)"

text \<open>The number of bytes a call of \<^verbatim>\<open>sock.send\<close> took.\<close>

fun sent_bytes :: "send_result \<Rightarrow> nat" where
  "sent_bytes (Sent n) = n"
| "sent_bytes (SocketError _) = 0"

section \<open>The blocking correlator (client.py, \<^verbatim>\<open>BlockingClient\<close>)\<close>

record blocking_client = device_client +
  current_name :: "string option"
  current_msg_id :: "string option"
  current_informs :: "cmessage list option"
  current_reply :: "cmessage option"
  current_inform_count :: "nat option"
  request_end :: bool

text \<open>\<^verbatim>\<open>BlockingClient.__init__\<close>\<close>

definition BlockingClient_init :: blocking_client where
  "BlockingClient_init =
     \<lparr>sock = None, connected_event = False, received_protocol_info = False,
      server_supports_ids = False, last_msg_id = 0, events = [],
      current_name = None, current_msg_id = None, current_informs = None,
      current_reply = None, current_inform_count = None, request_end = False\<rparr>"

text \<open>\<^verbatim>\<open>_message_matches\<close>\<close>

definition message_matches :: "blocking_client \<Rightarrow> cmessage \<Rightarrow> bool" where
  "message_matches s msg \<longleftrightarrow>
     (current_msg_id s \<noteq> None \<and> mid msg = current_msg_id s) \<or>
     (current_msg_id s = None \<and> Some (name msg) = current_name s)"

text \<open>\<^verbatim>\<open>BlockingClient.handle_inform\<close>; appending to \<^verbatim>\<open>_current_informs\<close> while it is
  \<^verbatim>\<open>None\<close> raises \<open>AttributeError\<close>.\<close>

definition BlockingClient_handle_inform ::
  "cmessage \<Rightarrow> blocking_client \<Rightarrow> client_error + blocking_client" where
  "BlockingClient_handle_inform msg s =
     (if message_matches s msg then
        (case current_informs s of
           None \<Rightarrow> Inl AttributeError
         | Some informs \<Rightarrow> Inr (s\<lparr>current_informs := Some (informs @ [msg])\<rparr>))
      else Inr (emit (BaseHandleInform msg) s))"

text \<open>\<^verbatim>\<open>BlockingClient.handle_reply\<close>\<close>

definition BlockingClient_handle_reply :: "cmessage \<Rightarrow> blocking_client \<Rightarrow> blocking_client" where
  "BlockingClient_handle_reply msg s =
     (if message_matches s msg
      then s\<lparr>current_name := None, current_reply := Some msg, request_end := True\<rparr>
      else emit (BaseHandleReply msg) s)"

text \<open>The \<^verbatim>\<open>finally\<close> block of \<^verbatim>\<open>blocking_request\<close>: it reads the outcome and clears the
  current request.\<close>

definition blocking_request_finally ::
  "blocking_client \<Rightarrow> (bool \<times> cmessage list option \<times> cmessage option) \<times> blocking_client" where
  "blocking_request_finally s =
     ((request_end s, current_informs s, current_reply s),
      s\<lparr>request_end := False, current_inform_count := None, current_informs := None,
        current_reply := None, current_name := None, current_msg_id := None\<rparr>)"

text \<open>\<^verbatim>\<open>blocking_request\<close> up to its first wait on \<^verbatim>\<open>_request_end\<close>: the current request
  is recorded, the message is sent and its identifier is stored.  An exception of
  \<^verbatim>\<open>request\<close> runs the \<^verbatim>\<open>finally\<close> block and leaves the method.\<close>

definition blocking_request_send ::
  "send_result list \<Rightarrow> blocking_client \<Rightarrow> cmessage \<Rightarrow> bool option
     \<Rightarrow> ((client_error + cmessage) \<times> blocking_client) option" where
  "blocking_request_send script s msg use_mid =
     (let s0 = s\<lparr>request_end := False, current_name := Some (name msg),
                 current_informs := Some [], current_reply := None,
                 current_inform_count := Some 0\<rparr>
      in case DeviceClient_request script s0 msg use_mid of
           None \<Rightarrow> None
         | Some (Inl e, msg1, s1) \<Rightarrow> Some (Inl e, snd (blocking_request_finally s1))
         | Some (Inr _, msg1, s1) \<Rightarrow> Some (Inr msg1, s1\<lparr>current_msg_id := mid msg1\<rparr>))"

section \<open>The asynchronous correlator (client.py, \<^verbatim>\<open>CallbackClient\<close>)\<close>

text \<open>
  An entry of \<^verbatim>\<open>_async_queue\<close> is the tuple
  \<^verbatim>\<open>(request, reply_cb, inform_cb, user_data, timer)\<close>.  The queue is a dictionary keyed by
  the identifier under which the request was pushed, and \<^verbatim>\<open>None\<close> is a key like any other:
  every request sent without identifier is stored under it.  \<^verbatim>\<open>_async_id_stack\<close> maps a
  request name to the list of identifiers pushed for it, oldest first.
\<close>

type_synonym pending =
  "cmessage \<times> callback option \<times> callback option \<times> user_data option \<times> timer option"

record callback_client = device_client +
  request_timeout :: "rat option"
  async_queue :: "string option \<rightharpoonup> pending"
  async_id_stack :: "string \<rightharpoonup> string option list"

text \<open>\<^verbatim>\<open>CallbackClient.__init__(..., timeout=5.0, ...)\<close>\<close>

definition CallbackClient_init :: "rat option \<Rightarrow> callback_client" where
  "CallbackClient_init timeout =
     \<lparr>sock = None, connected_event = False, received_protocol_info = False,
      server_supports_ids = False, last_msg_id = 0, events = [],
      request_timeout = timeout, async_queue = Map.empty, async_id_stack = Map.empty\<rparr>"

text \<open>\<^verbatim>\<open>_push_async_request\<close>\<close>

definition push_async_request ::
  "string option \<Rightarrow> cmessage \<Rightarrow> callback option \<Rightarrow> callback option \<Rightarrow> user_data option
     \<Rightarrow> timer option \<Rightarrow> callback_client \<Rightarrow> callback_client" where
  "push_async_request msg_id request reply_cb inform_cb user_data tm s =
     s\<lparr>async_queue := (async_queue s)(msg_id \<mapsto> (request, reply_cb, inform_cb, user_data, tm)),
       async_id_stack :=
         (case async_id_stack s (name request) of
            Some ids \<Rightarrow> (async_id_stack s)(name request \<mapsto> ids @ [msg_id])
          | None \<Rightarrow> (async_id_stack s)(name request \<mapsto> [msg_id]))\<rparr>"

text \<open>\<^verbatim>\<open>_msg_id_for_name\<close>: the first identifier on the stack of the name, and \<^verbatim>\<open>None\<close>
  (the implicit return value) when the name has no stack or an empty one.  The callers pass
  \<^verbatim>\<open>None\<close> as name when they look up by identifier.\<close>

definition msg_id_for_name :: "callback_client \<Rightarrow> string option \<Rightarrow> string option" where
  "msg_id_for_name s msg_name =
     (case msg_name of
        None \<Rightarrow> None
      | Some n \<Rightarrow>
          (case async_id_stack s n of
             Some (i # _) \<Rightarrow> i
           | _ \<Rightarrow> None))"

text \<open>\<^verbatim>\<open>_peek_async_request\<close>; the tuple of \<^verbatim>\<open>None\<close>s is \<open>None\<close> here.\<close>

definition peek_async_request ::
  "string option \<Rightarrow> string option \<Rightarrow> callback_client \<Rightarrow> pending option" where
  "peek_async_request msg_id msg_name s =
     (let msg_id' = (if msg_id = None then msg_id_for_name s msg_name else msg_id)
      in async_queue s msg_id')"

text \<open>\<^verbatim>\<open>_pop_async_request\<close>.  \<^verbatim>\<open>list.remove\<close> deletes the first occurrence and raises
  \<open>ValueError\<close> when there is none; indexing the stack with a name it does not hold raises
  \<open>KeyError\<close>.  An exception ends the calling thread; the state it leaves is not kept.\<close>

definition pop_async_request ::
  "string option \<Rightarrow> string option \<Rightarrow> callback_client
     \<Rightarrow> client_error + (pending option \<times> callback_client)" where
  "pop_async_request msg_id msg_name s =
     (let msg_id' = (if msg_id = None then msg_id_for_name s msg_name else msg_id)
      in case async_queue s msg_id' of
           None \<Rightarrow> Inr (None, s)
         | Some callback_tuple \<Rightarrow>
             (case async_id_stack s (name (fst callback_tuple)) of
                None \<Rightarrow> Inl KeyError
              | Some ids \<Rightarrow>
                  if msg_id' \<in> set ids
                  then Inr (Some callback_tuple,
                            s\<lparr>async_queue := (async_queue s)(msg_id' := None),
                              async_id_stack :=
                                (async_id_stack s)(name (fst callback_tuple) \<mapsto>
                                   remove1 msg_id' ids)\<rparr>)
                  else Inl ValueError))"

text \<open>The last part of \<^verbatim>\<open>handle_reply\<close>: cancel the timer if there is one, then call the
  reply callback, or the handler of the base class when there is none.  Exceptions of the
  callback are caught and logged there; callbacks are opaque here and only recorded.\<close>

definition deliver_reply ::
  "cmessage \<Rightarrow> callback option \<Rightarrow> user_data option \<Rightarrow> timer option \<Rightarrow> callback_client
     \<Rightarrow> callback_client" where
  "deliver_reply msg reply_cb user_data tm s =
     (let s1 = (case tm of Some t \<Rightarrow> emit (TimerCancel t) s | None \<Rightarrow> s)
      in case reply_cb of
           None \<Rightarrow> emit (BaseHandleReply msg) s1
         | Some cb \<Rightarrow> emit (ReplyCb cb msg user_data) s1)"

text \<open>\<^verbatim>\<open>CallbackClient.handle_reply\<close>.  For a reply without identifier the entry is first
  peeked by name; when the peeked request has an identifier the callback is dropped but the
  peeked \<^verbatim>\<open>timer\<close> stays in the local variable.\<close>

definition CallbackClient_handle_reply ::
  "cmessage \<Rightarrow> callback_client \<Rightarrow> client_error + callback_client" where
  "CallbackClient_handle_reply msg s =
     (case mid msg of
        Some i \<Rightarrow>
          (case pop_async_request (Some i) None s of
             Inl e \<Rightarrow> Inl e
           | Inr (None, s1) \<Rightarrow> Inr (deliver_reply msg None None None s1)
           | Inr (Some (_, reply_cb, _, user_data, tm), s1) \<Rightarrow>
               Inr (deliver_reply msg reply_cb user_data tm s1))
      | None \<Rightarrow>
          (case peek_async_request None (Some (name msg)) s of
             None \<Rightarrow> Inr (deliver_reply msg None None None s)
           | Some (request, _, _, _, tm0) \<Rightarrow>
               if mid request = None then
                 (case pop_async_request None (Some (name msg)) s of
                    Inl e \<Rightarrow> Inl e
                  | Inr (None, s1) \<Rightarrow> Inr (deliver_reply msg None None None s1)
                  | Inr (Some (_, reply_cb, _, user_data, tm), s1) \<Rightarrow>
                      Inr (deliver_reply msg reply_cb user_data tm s1))
               else Inr (deliver_reply msg None None tm0 s)))"

text \<open>\<^verbatim>\<open>_do_fail_callback\<close>\<close>

definition do_fail_callback ::
  "string \<Rightarrow> cmessage \<Rightarrow> callback option \<Rightarrow> callback option \<Rightarrow> user_data option
     \<Rightarrow> timer option \<Rightarrow> callback_client \<Rightarrow> callback_client" where
  "do_fail_callback reason msg reply_cb inform_cb user_data tm s =
     (case reply_cb of
        None \<Rightarrow> s
      | Some cb \<Rightarrow> emit (ReplyCb cb (Message_reply (name msg) [''fail'', reason]) user_data) s)"

text \<open>\<^verbatim>\<open>_handle_timeout(msg_id)\<close>, run by the timer.  The reason is
  \<^verbatim>\<open>"Timed out after %f seconds" % timer.interval\<close>.\<close>

definition handle_timeout ::
  "string option \<Rightarrow> callback_client \<Rightarrow> client_error + callback_client" where
  "handle_timeout msg_id s =
     (case pop_async_request msg_id None s of
        Inl e \<Rightarrow> Inl e
      | Inr (None, s1) \<Rightarrow> Inr s1
      | Inr (Some (msg, reply_cb, inform_cb, user_data, tm), s1) \<Rightarrow>
          (case tm of
             None \<Rightarrow> Inr s1
           | Some t \<Rightarrow>
               Inr (do_fail_callback (''Timed out after '' @ format_f (interval t) @ '' seconds'')
                      msg reply_cb inform_cb user_data tm s1)))"

text \<open>\<^verbatim>\<open>CallbackClient.request\<close>.  \<open>KatcpVersionError\<close> is raised again and every other
  exception that is not a \<open>KatcpClientError\<close> passes through; a \<open>KatcpClientError\<close> is
  turned into the message \<^verbatim>\<open>error_reply\<close>, which is given to \<^verbatim>\<open>handle_reply\<close> once the
  request has been pushed and its timer started.\<close>

definition CallbackClient_request ::
  "send_result list \<Rightarrow> callback_client \<Rightarrow> cmessage \<Rightarrow> callback option \<Rightarrow> callback option
     \<Rightarrow> user_data option \<Rightarrow> rat option \<Rightarrow> bool option
     \<Rightarrow> ((client_error + unit) \<times> callback_client) option" where
  "CallbackClient_request script s msg reply_cb inform_cb user_data timeout use_mid =
     (let timeout' = (case timeout of None \<Rightarrow> request_timeout s | Some t \<Rightarrow> Some t) in
      case DeviceClient_request script s msg use_mid of
        None \<Rightarrow> None
      | Some (res, msg1, s1) \<Rightarrow>
          (let after_send = (\<lambda>error_reply.
                 let tm = (case timeout' of
                             None \<Rightarrow> None
                           | Some t \<Rightarrow> Some \<lparr>interval = t, timer_args = mid msg1\<rparr>);
                     s2 = push_async_request (mid msg1) msg1 reply_cb inform_cb user_data tm s1;
                     s3 = (case tm of Some t \<Rightarrow> emit (TimerStart t) s2 | None \<Rightarrow> s2)
                 in case error_reply of
                      None \<Rightarrow> Some (Inr (), s3)
                    | Some er \<Rightarrow>
                        (case CallbackClient_handle_reply er s3 of
                           Inl e \<Rightarrow> Some (Inl e, s3)
                         | Inr s4 \<Rightarrow> Some (Inr (), s4)))
           in case res of
                Inr _ \<Rightarrow> after_send None
              | Inl (KatcpClientError e) \<Rightarrow>
                  after_send (Some ((Message_request (name msg1) [''fail'', e])\<lparr>mid := mid msg1\<rparr>))
              | Inl other \<Rightarrow> Some (Inl other, s1)))"

section \<open>Example inputs\<close>

text \<open>The handshake inform of a server that speaks protocol version 5 with message
  identifiers, \<^verbatim>\<open>#version-connect katcp-protocol 5.0-M\<close>.\<close>

definition version_connect_5 :: cmessage where
  "version_connect_5 =
     \<lparr>mtype = INFORM, name = ''version-connect'',
      arguments = [''katcp-protocol'', ''5.0-M''], mid = None\<rparr>"

section \<open>Properties of the codec\<close>

lemma escape_match_lookup:
  assumes "ESCAPE_RE c"
  shows "\<exists>k. escape_match c = [BACKSLASH, k] \<and> ESCAPE_LOOKUP k = Some c \<and> k \<noteq> LF \<and> k \<noteq> CR"
  using assms
  by (auto simp: ESCAPE_RE_def escape_match_def REVERSE_ESCAPE_LOOKUP_def ESCAPE_LOOKUP_def)

lemma not_escape_plain:
  assumes "\<not> ESCAPE_RE c"
  shows "c \<noteq> BACKSLASH \<and> c \<noteq> SPACE \<and> c \<notin> SPECIAL \<and> c \<noteq> LF \<and> c \<noteq> CR"
  using assms by (auto simp: ESCAPE_RE_def SPECIAL_def)

lemma escape_sub_Cons:
  "escape_sub (c # a) = (if ESCAPE_RE c then escape_match c else [c]) @ escape_sub a"
  by (simp add: escape_sub_def)

lemma loop_escape_sub:
  "parse_arguments_loop (escape_sub a @ rest) arg args = parse_arguments_loop rest (arg @ a) args"
proof (induction a arbitrary: arg)
  case Nil
  show ?case by (simp add: escape_sub_def)
next
  case (Cons c a)
  show ?case
  proof (cases "ESCAPE_RE c")
    case True
    then obtain k where k: "escape_match c = [BACKSLASH, k]" "ESCAPE_LOOKUP k = Some c"
      using escape_match_lookup by blast
    with True escape_sub_Cons [of c a] Cons.IH [of "arg @ [c]"] show ?thesis by simp
  next
    case False
    with not_escape_plain [OF False] escape_sub_Cons [of c a] Cons.IH [of "arg @ [c]"]
    show ?thesis by simp
  qed
qed

lemma loop_join:
  "parse_arguments_loop (join_sp (map escape_sub (a # as))) arg args = Inr (args @ (arg @ a) # as)"
proof (induction as arbitrary: a arg args)
  case Nil
  show ?case using loop_escape_sub [of a "[]" arg args] by simp
next
  case (Cons b bs)
  have "parse_arguments_loop (join_sp (map escape_sub (a # b # bs))) arg args
      = parse_arguments_loop (escape_sub a @ SPACE # join_sp (map escape_sub (b # bs))) arg args"
    by simp
  also have "\<dots> = parse_arguments_loop (SPACE # join_sp (map escape_sub (b # bs))) (arg @ a) args"
    by (rule loop_escape_sub)
  also have "\<dots> = parse_arguments_loop (join_sp (map escape_sub (b # bs))) [] (args @ [arg @ a])"
    by simp
  also have "\<dots> = Inr ((args @ [arg @ a]) @ ([] @ b) # bs)"
    by (rule Cons.IH)
  finally show ?case by simp
qed

lemma name_char_plain:
  "is_alpha_char c \<or> is_digit_char c \<or> c = DASH \<Longrightarrow> c \<noteq> SPACE \<and> c \<noteq> LF \<and> c \<noteq> CR"
  by (auto simp: is_alpha_char_def is_digit_char_def)

lemma type_symbol_lookup: "TYPE_SYMBOL_LOOKUP (TYPE_SYMBOLS t) = Some t"
  by (cases t) (simp_all add: TYPE_SYMBOL_LOOKUP_def)

lemma type_symbol_plain:
  "TYPE_SYMBOLS t \<noteq> SPACE \<and> TYPE_SYMBOLS t \<noteq> LF \<and> TYPE_SYMBOLS t \<noteq> CR"
  by (cases t) simp_all

lemma wf_name_plain:
  assumes "well_formed_name n"
  shows "SPACE \<notin> set n \<and> LF \<notin> set n \<and> CR \<notin> set n"
proof -
  from assms obtain c cs where n: "n = c # cs" and c: "is_alpha_char c"
    and cs: "list_all (\<lambda>d. is_alpha_char d \<or> is_digit_char d \<or> d = DASH) cs"
    by (auto simp: well_formed_name_def split: list.splits)
  from c have "c \<noteq> SPACE \<and> c \<noteq> LF \<and> c \<noteq> CR" using name_char_plain by blast
  moreover from cs have "SPACE \<notin> set cs \<and> LF \<notin> set cs \<and> CR \<notin> set cs"
    using name_char_plain by (auto simp: list_all_iff)
  ultimately show ?thesis using n by auto
qed

lemma wf_name_checks:
  assumes "well_formed_name n"
  shows "n \<noteq> [] \<and> isalnum (replace_dash n) \<and> isalpha [hd n]"
proof -
  from assms obtain c cs where n: "n = c # cs" and c: "is_alpha_char c"
    and cs: "list_all (\<lambda>d. is_alpha_char d \<or> is_digit_char d \<or> d = DASH) cs"
    by (auto simp: well_formed_name_def split: list.splits)
  from c have "c \<noteq> DASH" by (auto simp: is_alpha_char_def)
  with c cs n show ?thesis
    by (auto simp: isalnum_def isalpha_def replace_dash_def list_all_iff)
qed

lemma partition_sp_head:
  assumes "SPACE \<notin> set h"
  shows "partition_sp (h @ SPACE # t) = (h, [SPACE], t)"
proof -
  from assms have all: "\<forall>x\<in>set h. x \<noteq> SPACE" by auto
  have "takeWhile (\<lambda>c. c \<noteq> SPACE) (h @ SPACE # t) = h"
    using takeWhile_append2 [of h "\<lambda>c. c \<noteq> SPACE" "SPACE # t"] all by simp
  moreover have "dropWhile (\<lambda>c. c \<noteq> SPACE) (h @ SPACE # t) = SPACE # t"
    using dropWhile_append2 [of h "\<lambda>c. c \<noteq> SPACE" "SPACE # t"] all by simp
  ultimately show ?thesis by (simp add: partition_sp_def)
qed

lemma partition_sp_none:
  assumes "SPACE \<notin> set h"
  shows "partition_sp h = (h, [], [])"
  using assms by (simp add: partition_sp_def)

lemma parse_str:
  assumes "well_formed_name (name m)"
  shows "parse (str m) = Inr m"
proof -
  let ?h = "TYPE_SYMBOLS (mtype m) # name m"
  have h: "SPACE \<notin> set ?h"
    using wf_name_plain [OF assms] type_symbol_plain [of "mtype m"] by auto
  note chk = wf_name_checks [OF assms]
  show ?thesis
  proof (cases "arguments m")
    case Nil
    then have "str m = ?h" by (simp add: str_def)
    with partition_sp_none [OF h] chk type_symbol_lookup [of "mtype m"] Nil show ?thesis
      by (simp add: parse_def parse_arguments_def)
  next
    case (Cons a as)
    then have s: "str m = ?h @ SPACE # join_sp (map escape_sub (a # as))"
      by (simp add: str_def)
    have "parse_arguments [SPACE] (join_sp (map escape_sub (a # as))) = Inr (a # as)"
      using loop_join [of a as "[]" "[]"] by (simp add: parse_arguments_def)
    with s partition_sp_head [OF h] chk type_symbol_lookup [of "mtype m"] Cons show ?thesis
      by (simp add: parse_def)
  qed
qed

text \<open>The serialized arguments hold no raw line terminator: every LF and CR is escaped.\<close>

lemma escape_sub_no_terminator: "LF \<notin> set (escape_sub a) \<and> CR \<notin> set (escape_sub a)"
proof (induction a)
  case Nil
  show ?case by (simp add: escape_sub_def)
next
  case (Cons c a)
  show ?case
  proof (cases "ESCAPE_RE c")
    case True
    then obtain k where "escape_match c = [BACKSLASH, k]" "k \<noteq> LF" "k \<noteq> CR"
      using escape_match_lookup by blast
    with True Cons.IH escape_sub_Cons [of c a] show ?thesis by auto
  next
    case False
    with not_escape_plain [OF False] Cons.IH escape_sub_Cons [of c a] show ?thesis by auto
  qed
qed

lemma join_sp_no_terminator:
  "LF \<notin> set (join_sp (map escape_sub as)) \<and> CR \<notin> set (join_sp (map escape_sub as))"
proof (induction as rule: join_sp.induct)
  case 1
  show ?case by simp
next
  case (2 x)
  show ?case using escape_sub_no_terminator [of x] by simp
next
  case (3 x y ys)
  then show ?case using escape_sub_no_terminator [of x] by simp
qed

lemma str_no_terminator:
  assumes "well_formed_name (name m)"
  shows "LF \<notin> set (str m) \<and> CR \<notin> set (str m)"
  using wf_name_plain [OF assms] type_symbol_plain [of "mtype m"]
    join_sp_no_terminator [of "arguments m"]
  by (auto simp: str_def)

lemma loop_snoc_space:
  "parse_arguments_loop tail arg args = Inr r \<Longrightarrow>
   parse_arguments_loop (tail @ [SPACE]) arg args = Inr (r @ [[]])"
proof (induction tail arg args rule: parse_arguments_loop.induct)
  case (1 arg args)
  then show ?case by auto
next
  case (2 c cs arg args)
  show ?case
  proof (cases "c = BACKSLASH")
    case True
    with "2.prems" obtain k cs' v where cs: "cs = k # cs'" and v: "ESCAPE_LOOKUP k = Some v"
      by (auto split: list.splits option.splits)
    with True "2.prems" have "parse_arguments_loop cs' (arg @ [v]) args = Inr r" by simp
    with "2.IH"(1) [OF True cs v] True cs v show ?thesis by simp
  next
    case False
    show ?thesis
    proof (cases "c = SPACE")
      case True
      with False "2.prems" "2.IH"(2) show ?thesis by simp
    next
      case sp: False
      with False "2.prems" have ns: "c \<notin> SPECIAL" by (auto split: if_splits)
      with False sp "2.prems" "2.IH"(3) show ?thesis by simp
    qed
  qed
qed

text \<open>An escape that is not the last thing on the line and whose continuation is no key of
  \<open>ESCAPE_LOOKUP\<close> is rejected with \<open>DclSyntaxError\<close>, whatever follows it.\<close>

lemma loop_invalid_escape:
  "parse_arguments_loop pre arg args = Inr r \<Longrightarrow> ESCAPE_LOOKUP k = None \<Longrightarrow>
   parse_arguments_loop (pre @ BACKSLASH # k # post) arg args = Inl DclSyntaxError"
proof (induction pre arg args rule: parse_arguments_loop.induct)
  case (1 arg args)
  then show ?case by auto
next
  case (2 c cs arg args)
  show ?case
  proof (cases "c = BACKSLASH")
    case True
    with "2.prems" obtain k' cs' v where cs: "cs = k' # cs'" and v: "ESCAPE_LOOKUP k' = Some v"
      by (auto split: list.splits option.splits)
    with True "2.prems" have "parse_arguments_loop cs' (arg @ [v]) args = Inr r" by simp
    with "2.IH"(1) [OF True cs v] "2.prems"(2) True cs v show ?thesis by simp
  next
    case False
    show ?thesis
    proof (cases "c = SPACE")
      case True
      with False "2.prems" "2.IH"(2) show ?thesis by simp
    next
      case sp: False
      with False "2.prems" have ns: "c \<notin> SPECIAL" by (auto split: if_splits)
      with False sp "2.prems" "2.IH"(3) show ?thesis by simp
    qed
  qed
qed

lemma parse_snoc_space:
  assumes "parse line = Inr m"
  shows "parse (line @ [SPACE]) = Inr (m\<lparr>arguments := arguments m @ [[]]\<rparr>)"
proof (cases "SPACE \<in> set line")
  case False
  then have p1: "partition_sp line = (line, [], [])" by (rule partition_sp_none)
  from False have p2: "partition_sp (line @ [SPACE]) = (line, [SPACE], [])"
    by (rule partition_sp_head)
  from assms p1 p2 show ?thesis
    by (auto simp: parse_def parse_arguments_def split: list.splits option.splits if_splits)
next
  case True
  then obtain h t where line: "line = h @ SPACE # t" and h: "SPACE \<notin> set h"
    using split_list_first [of SPACE line] by blast
  have p1: "partition_sp line = (h, [SPACE], t)"
    unfolding line using h by (rule partition_sp_head)
  have p2: "partition_sp (line @ [SPACE]) = (h, [SPACE], t @ [SPACE])"
    using partition_sp_head [OF h, of "t @ [SPACE]"] by (simp add: line)
  from assms p1 p2 show ?thesis
    by (auto simp: parse_def parse_arguments_def loop_snoc_space
             split: list.splits option.splits if_splits sum.splits)
qed

section \<open>Properties of the line framer\<close>

lemma split_lf_nonempty: "split_lf s \<noteq> []"
  by (induction s) (auto split: list.splits)

lemma handle_chunk_Nil: "handle_chunk prs st [] = st"
  by (simp add: handle_chunk_def replace_cr_def)

lemma handle_chunk_Cons: "handle_chunk prs st (c # cs) = handle_chunk prs (feed_byte prs st c) cs"
proof (cases "c = LF \<or> c = CR")
  case True
  then have "split_lf (replace_cr (c # cs)) = [] # split_lf (replace_cr cs)"
    by (auto simp: replace_cr_def)
  moreover have "butlast ([] # split_lf (replace_cr cs)) = [] # butlast (split_lf (replace_cr cs))"
    using split_lf_nonempty by simp
  moreover have "last ([] # split_lf (replace_cr cs)) = last (split_lf (replace_cr cs))"
    using split_lf_nonempty by simp
  ultimately show ?thesis using True
    by (simp add: handle_chunk_def feed_byte_def close_line_def Let_def)
next
  case False
  obtain l ls where sp: "split_lf (replace_cr cs) = l # ls"
    using split_lf_nonempty [of "replace_cr cs"] by (cases "split_lf (replace_cr cs)") auto
  from False have eq: "split_lf (replace_cr (c # cs)) = (c # l) # ls"
    using sp by (simp add: replace_cr_def)
  show ?thesis
  proof (cases ls)
    case Nil
    with eq sp False show ?thesis
      by (simp add: handle_chunk_def feed_byte_def)
  next
    case (Cons l2 ls2)
    with eq sp False show ?thesis
      by (simp add: handle_chunk_def feed_byte_def Let_def)
  qed
qed

lemma handle_chunk_foldl: "handle_chunk prs st cs = foldl (feed_byte prs) st cs"
  by (induction cs arbitrary: st) (simp_all add: handle_chunk_Nil handle_chunk_Cons)

lemma handle_chunk_append:
  "handle_chunk prs st (c1 @ c2) = handle_chunk prs (handle_chunk prs st c1) c2"
  by (simp add: handle_chunk_foldl)

lemma handle_chunks_concat:
  "handle_chunks prs st chunks = handle_chunk prs st (concat chunks)"
  unfolding handle_chunks_def
  by (induction chunks arbitrary: st) (simp_all add: handle_chunk_Nil handle_chunk_append)

lemma waiting_after_close: "waiting_chunk (close_line prs st) = []"
  by (simp add: close_line_def Let_def split: sum.splits)

lemma close_line_idem: "close_line prs (close_line prs st) = close_line prs st"
  by (simp add: close_line_def Let_def split: sum.splits)

lemma handle_chunk_plain:
  assumes "LF \<notin> set t" "CR \<notin> set t"
  shows "handle_chunk prs st t = st\<lparr>waiting_chunk := waiting_chunk st @ t\<rparr>"
  using assms
proof (induction t arbitrary: st)
  case Nil
  show ?case by (simp add: handle_chunk_Nil)
next
  case (Cons c t)
  then have "c \<noteq> LF" "c \<noteq> CR" "LF \<notin> set t" "CR \<notin> set t" by auto
  with Cons.IH [of "st\<lparr>waiting_chunk := waiting_chunk st @ [c]\<rparr>"] show ?case
    by (simp add: handle_chunk_Cons feed_byte_def)
qed

lemma close_line_twice:
  assumes "a = LF \<or> a = CR" "b = LF \<or> b = CR"
  shows "handle_chunk prs st (s @ a # b # t) = handle_chunk prs st (s @ a # t)"
proof -
  have "handle_chunk prs st (s @ a # b # t)
      = handle_chunk prs (feed_byte prs (feed_byte prs (handle_chunk prs st s) a) b) t"
    by (simp add: handle_chunk_append handle_chunk_Cons)
  also have "feed_byte prs (feed_byte prs (handle_chunk prs st s) a) b
      = feed_byte prs (handle_chunk prs st s) a"
    using assms by (simp add: feed_byte_def close_line_idem)
  also have "handle_chunk prs (feed_byte prs (handle_chunk prs st s) a) t
      = handle_chunk prs st (s @ a # t)"
    by (simp add: handle_chunk_append handle_chunk_Cons)
  finally show ?thesis .
qed

section \<open>The claims about the codec and the framer\<close>

lemmas parse_eval = parse_def partition_sp_def TYPE_SYMBOL_LOOKUP_def isalnum_def isalpha_def
  replace_dash_def is_alpha_char_def is_digit_char_def parse_arguments_def ESCAPE_LOOKUP_def
  SPECIAL_def

text \<open>
  Claim C1 (codec round-trip).  For every message whose name matches
  \<^verbatim>\<open>[A-Za-z][A-Za-z0-9-]*\<close>, of any type and with any list of byte strings as arguments,
  parsing \<open>str m\<close> gives back exactly \<open>m\<close>; and when the serialized line followed by a
  line terminator is fed to the framer on an empty buffer, the framer strips the terminator
  and hands exactly \<open>m\<close> to the message handler.
\<close>

theorem codec_roundtrip:
  assumes "well_formed_name (name m)" and "t = LF \<or> t = CR"
  shows "parse (str m) = Inr m \<and>
         handle_chunk parse \<lparr>waiting_chunk = [], dispatched = d\<rparr> (str m @ [t])
           = \<lparr>waiting_chunk = [], dispatched = d @ [HandleMessage m]\<rparr>"
proof -
  have p: "parse (str m) = Inr m" using assms(1) by (rule parse_str)
  have ne: "str m \<noteq> []" by (simp add: str_def Let_def)
  from str_no_terminator [OF assms(1)]
  have "handle_chunk parse \<lparr>waiting_chunk = [], dispatched = d\<rparr> (str m)
          = \<lparr>waiting_chunk = str m, dispatched = d\<rparr>"
    by (simp add: handle_chunk_plain)
  then have "handle_chunk parse \<lparr>waiting_chunk = [], dispatched = d\<rparr> (str m @ [t])
          = feed_byte parse \<lparr>waiting_chunk = str m, dispatched = d\<rparr> t"
    by (simp add: handle_chunk_append handle_chunk_Cons handle_chunk_Nil)
  also have "\<dots> = \<lparr>waiting_chunk = [], dispatched = d @ [HandleMessage m]\<rparr>"
    using assms(2) p ne by (auto simp: feed_byte_def close_line_def)
  finally show ?thesis using p by simp
qed

theorem codec_roundtrip_witness:
  "well_formed_name ''set-rate'' \<and>
   parse (str \<lparr>mtype = REQUEST, name = ''set-rate'', arguments = [''a b'', [], [LF, BACKSLASH]]\<rparr>)
     = Inr \<lparr>mtype = REQUEST, name = ''set-rate'', arguments = [''a b'', [], [LF, BACKSLASH]]\<rparr> \<and>
   handle_chunk parse \<lparr>waiting_chunk = [], dispatched = []\<rparr>
       (str \<lparr>mtype = REQUEST, name = ''set-rate'', arguments = [''a b'', [], [LF, BACKSLASH]]\<rparr> @ [LF])
     = \<lparr>waiting_chunk = [],
        dispatched = [HandleMessage
          \<lparr>mtype = REQUEST, name = ''set-rate'', arguments = [''a b'', [], [LF, BACKSLASH]]\<rparr>]\<rparr>"
proof -
  have wf: "well_formed_name ''set-rate''"
    by (simp add: well_formed_name_def is_alpha_char_def is_digit_char_def)
  have t: "LF = LF \<or> LF = CR" by simp
  from wf have wf': "well_formed_name
      (name \<lparr>mtype = REQUEST, name = ''set-rate'', arguments = [''a b'', [], [LF, BACKSLASH]]\<rparr>)"
    by simp
  show ?thesis using wf codec_roundtrip [OF wf' t, of "[]"] by simp
qed

text \<open>
  Claim C7 (invalid escape rejection).  When the backslash is the last byte of the line the
  parser does not raise \<open>DclSyntaxError\<close>: \<^verbatim>\<open>tail_iter.next()\<close> raises
  \<open>StopIteration\<close>, which leaves \<^verbatim>\<open>_parse_arguments\<close> and \<^verbatim>\<open>parse\<close> uncaught.
  (Lemma \<open>loop_invalid_escape\<close> covers the escapes that are followed by a byte.)
\<close>

theorem trailing_backslash_not_syntax_error:
  "parse (''?foo '' @ [BACKSLASH]) = Inl StopIteration \<and>
   parse (''?foo '' @ [BACKSLASH]) \<noteq> Inl DclSyntaxError"
  by (simp add: parse_eval)

text \<open>
  Claim C8 (empty-argument boundaries).  One trailing space after the name gives one empty
  argument, two give two, and backslash-space, space, backslash-space, space gives the
  arguments space, space and empty.  In general, appending a space to any line that parses
  appends one empty argument to the result.
\<close>

theorem empty_argument_boundaries:
  "parse ''!foo '' = Inr \<lparr>mtype = REPLY, name = ''foo'', arguments = [[]]\<rparr> \<and>
   parse ''!foo  '' = Inr \<lparr>mtype = REPLY, name = ''foo'', arguments = [[], []]\<rparr> \<and>
   parse (''!foo '' @ [BACKSLASH, SPACE, SPACE, BACKSLASH, SPACE, SPACE])
     = Inr \<lparr>mtype = REPLY, name = ''foo'', arguments = ['' '', '' '', []]\<rparr> \<and>
   (\<forall>line m. parse line = Inr m \<longrightarrow>
      parse (line @ [SPACE]) = Inr (m\<lparr>arguments := arguments m @ [[]]\<rparr>))"
proof -
  have "parse ''!foo '' = Inr \<lparr>mtype = REPLY, name = ''foo'', arguments = [[]]\<rparr>"
    by (simp add: parse_eval)
  moreover have "parse ''!foo  '' = Inr \<lparr>mtype = REPLY, name = ''foo'', arguments = [[], []]\<rparr>"
    by (simp add: parse_eval)
  moreover have "parse (''!foo '' @ [BACKSLASH, SPACE, SPACE, BACKSLASH, SPACE, SPACE])
     = Inr \<lparr>mtype = REPLY, name = ''foo'', arguments = ['' '', '' '', []]\<rparr>"
    by (simp add: parse_eval)
  ultimately show ?thesis using parse_snoc_space by blast
qed

theorem empty_argument_boundaries_witness:
  "parse ''?a b'' = Inr \<lparr>mtype = REQUEST, name = ''a'', arguments = [''b'']\<rparr> \<and>
   parse (''?a b'' @ [SPACE]) = Inr \<lparr>mtype = REQUEST, name = ''a'', arguments = [''b'', []]\<rparr>"
proof -
  have h: "parse ''?a b'' = Inr \<lparr>mtype = REQUEST, name = ''a'', arguments = [''b'']\<rparr>"
    by (simp add: parse_eval)
  from empty_argument_boundaries
  have "\<forall>line m. parse line = Inr m \<longrightarrow>
      parse (line @ [SPACE]) = Inr (m\<lparr>arguments := arguments m @ [[]]\<rparr>)"
    by blast
  with h have "parse (''?a b'' @ [SPACE])
      = Inr (\<lparr>mtype = REQUEST, name = ''a'', arguments = [''b'']\<rparr>\<lparr>arguments :=
          arguments \<lparr>mtype = REQUEST, name = ''a'', arguments = [''b'']\<rparr> @ [[]]\<rparr>)"
    by blast
  with h show ?thesis by simp
qed

text \<open>
  Claim C10 (framer chunking invariance).  Feeding chunks one at a time leaves the framer in
  the same state (same calls to the handler and the logger, same carry-over buffer) as feeding
  their concatenation at once.  Bytes after the last LF or CR are only appended to the
  carry-over buffer.  A terminator that directly follows a terminator, or that arrives on an
  empty buffer, changes nothing: empty lines are skipped and nothing is logged for them.
\<close>

theorem framer_chunking_invariance:
  "handle_chunks prs st chunks = handle_chunk prs st (concat chunks) \<and>
   (LF \<notin> set t \<and> CR \<notin> set t \<longrightarrow>
      handle_chunk prs st (s @ t)
        = (handle_chunk prs st s)\<lparr>waiting_chunk := waiting_chunk (handle_chunk prs st s) @ t\<rparr>) \<and>
   ((a = LF \<or> a = CR) \<and> (b = LF \<or> b = CR) \<longrightarrow>
      handle_chunk prs st (s @ a # b # t) = handle_chunk prs st (s @ a # t)) \<and>
   ((a = LF \<or> a = CR) \<and> waiting_chunk st = [] \<longrightarrow> handle_chunk prs st [a] = st)"
proof -
  have "handle_chunks prs st chunks = handle_chunk prs st (concat chunks)"
    by (rule handle_chunks_concat)
  moreover have "LF \<notin> set t \<and> CR \<notin> set t \<longrightarrow>
      handle_chunk prs st (s @ t)
        = (handle_chunk prs st s)\<lparr>waiting_chunk := waiting_chunk (handle_chunk prs st s) @ t\<rparr>"
    by (simp add: handle_chunk_append handle_chunk_plain)
  moreover have "(a = LF \<or> a = CR) \<and> (b = LF \<or> b = CR) \<longrightarrow>
      handle_chunk prs st (s @ a # b # t) = handle_chunk prs st (s @ a # t)"
    using close_line_twice by blast
  moreover have "(a = LF \<or> a = CR) \<and> waiting_chunk st = [] \<longrightarrow> handle_chunk prs st [a] = st"
    by (auto simp: handle_chunk_Cons handle_chunk_Nil feed_byte_def close_line_def)
  ultimately show ?thesis by blast
qed

theorem framer_chunking_invariance_witness:
  "handle_chunks parse \<lparr>waiting_chunk = [], dispatched = []\<rparr>
       [''?a'', '' b'' @ [CR], [LF] @ ''!c'' @ [LF] @ ''#x'']
     = handle_chunk parse \<lparr>waiting_chunk = [], dispatched = []\<rparr>
         (''?a b'' @ [CR, LF] @ ''!c'' @ [LF] @ ''#x'') \<and>
   handle_chunk parse \<lparr>waiting_chunk = [], dispatched = []\<rparr>
         (''?a b'' @ [CR, LF] @ ''!c'' @ [LF] @ ''#x'')
     = \<lparr>waiting_chunk = ''#x'',
        dispatched = [HandleMessage \<lparr>mtype = REQUEST, name = ''a'', arguments = [''b'']\<rparr>,
                      HandleMessage \<lparr>mtype = REPLY, name = ''c'', arguments = []\<rparr>]\<rparr> \<and>
   handle_chunk parse \<lparr>waiting_chunk = [], dispatched = []\<rparr> (''?a b'' @ [CR, LF] @ ''!c'')
     = handle_chunk parse \<lparr>waiting_chunk = [], dispatched = []\<rparr> (''?a b'' @ [CR] @ ''!c'') \<and>
   handle_chunk parse \<lparr>waiting_chunk = [], dispatched = []\<rparr> [CR]
     = \<lparr>waiting_chunk = [], dispatched = []\<rparr>"
proof -
  let ?st = "\<lparr>waiting_chunk = [], dispatched = [] :: (parse_error, message) dispatch list\<rparr>"
  note inv = framer_chunking_invariance [where prs = parse and st = ?st]
  have c1: "handle_chunks parse ?st [''?a'', '' b'' @ [CR], [LF] @ ''!c'' @ [LF] @ ''#x'']
      = handle_chunk parse ?st (''?a b'' @ [CR, LF] @ ''!c'' @ [LF] @ ''#x'')"
    using inv [of "[''?a'', '' b'' @ [CR], [LF] @ ''!c'' @ [LF] @ ''#x'']"] by simp
  have pre: "handle_chunk parse ?st (''?a b'' @ [CR, LF] @ ''!c'' @ [LF])
      = \<lparr>waiting_chunk = [],
         dispatched = [HandleMessage \<lparr>mtype = REQUEST, name = ''a'', arguments = [''b'']\<rparr>,
                       HandleMessage \<lparr>mtype = REPLY, name = ''c'', arguments = []\<rparr>]\<rparr>"
    by (simp add: handle_chunk_def replace_cr_def parse_eval)
  have "LF \<notin> set ''#x'' \<and> CR \<notin> set ''#x''" by simp
  with inv [where t = "''#x''" and s = "''?a b'' @ [CR, LF] @ ''!c'' @ [LF]"]
  have c2: "handle_chunk parse ?st ((''?a b'' @ [CR, LF] @ ''!c'' @ [LF]) @ ''#x'')
      = (handle_chunk parse ?st (''?a b'' @ [CR, LF] @ ''!c'' @ [LF]))\<lparr>waiting_chunk :=
          waiting_chunk (handle_chunk parse ?st (''?a b'' @ [CR, LF] @ ''!c'' @ [LF])) @ ''#x''\<rparr>"
    by blast
  have "(CR = LF \<or> CR = CR) \<and> (LF = LF \<or> LF = CR)" by simp
  with inv [where a = CR and b = LF and s = "''?a b''" and t = "''!c''"]
  have c3: "handle_chunk parse ?st (''?a b'' @ CR # LF # ''!c'')
      = handle_chunk parse ?st (''?a b'' @ CR # ''!c'')"
    by blast
  have "(CR = LF \<or> CR = CR) \<and> waiting_chunk ?st = []" by simp
  with inv [where a = CR] have c4: "handle_chunk parse ?st [CR] = ?st" by blast
  from c1 c2 c3 c4 pre show ?thesis by simp
qed

section \<open>Properties of the client\<close>

lemma decimal_numeral [simp]:
  "decimal (numeral k) =
     (if numeral k < (10::nat) then [digit_char (numeral k)]
      else decimal (numeral k div 10) @ [digit_char (numeral k mod 10)])"
  by (rule decimal.simps)

lemma decimal_small: "n < 10 \<Longrightarrow> decimal n = [digit_char n]"
  by (simp add: decimal.simps [of n])

lemma decimal_0 [simp]: "decimal 0 = ''0''"
  by (simp add: decimal_small digit_char_def)

lemma round_float_0_05: "round_half_even (\<bar>float_0_05\<bar> * 1000000) = 50000"
proof -
  have "\<lfloor>\<bar>float_0_05\<bar> * 1000000\<rfloor> = 50000"
    by (rule floor_unique) (simp_all add: float_0_05_def)
  then show ?thesis
    by (simp add: round_half_even_def float_0_05_def)
qed

lemma float_0_05_nonneg: "\<not> float_0_05 < 0"
  by (simp add: float_0_05_def)

lemma format_f_float_0_05: "format_f float_0_05 = ''0.050000''"
  by (simp add: format_f_def round_float_0_05 float_0_05_nonneg digit_char_def)

lemmas client_eval = send_message_def connect_ok_def emit_def Message_request_def Message_reply_def
  core_str_def disconnect_def DeviceClient_request_def resolve_mid_def next_id_def
  inform_version_connect_def digit_char_def decimal_small

lemmas callback_eval = CallbackClient_request_def CallbackClient_init_def
  push_async_request_def CallbackClient_handle_reply_def peek_async_request_def
  pop_async_request_def msg_id_for_name_def deliver_reply_def handle_timeout_def
  do_fail_callback_def Let_def

subsection \<open>The handshake flag\<close>

lemma handshake_inv_init: "handshake_inv DeviceClient_init"
  by (simp add: handshake_inv_def DeviceClient_init_def)

lemma handshake_inv_version_connect:
  "handshake_inv s \<Longrightarrow> handshake_inv (inform_version_connect supports_ids msg s)"
  by (auto simp: handshake_inv_def inform_version_connect_def split: list.splits)

lemma handshake_inv_disconnect: "handshake_inv s \<Longrightarrow> handshake_inv (disconnect s)"
  by (auto simp: handshake_inv_def disconnect_def split: option.splits)

lemma handshake_inv_connect_ok: "handshake_inv s \<Longrightarrow> handshake_inv (connect_ok sk s)"
  by (auto simp: handshake_inv_def connect_ok_def emit_def)

lemma send_loop_flags:
  "send_loop script sk data tsent e s = Some (f, e', s') \<Longrightarrow>
   server_supports_ids s' = server_supports_ids s \<and>
   received_protocol_info s' = received_protocol_info s \<and> last_msg_id s' = last_msg_id s"
proof (induction script arbitrary: tsent e s)
  case Nil
  then show ?case by (auto split: if_splits)
next
  case (Cons r script)
  show ?case
  proof (cases "tsent < length data")
    case False
    with Cons.prems show ?thesis by auto
  next
    case True
    let ?s1 = "emit (SockSend sk (drop tsent data)) s"
    have s1: "server_supports_ids ?s1 = server_supports_ids s \<and>
      received_protocol_info ?s1 = received_protocol_info s \<and> last_msg_id ?s1 = last_msg_id s"
      by (simp add: emit_def)
    show ?thesis
    proof (cases r)
      case (Sent n)
      show ?thesis
      proof (cases "n = 0")
        case True
        with Cons.prems \<open>tsent < length data\<close> Sent s1 show ?thesis by (auto simp: Let_def)
      next
        case False
        with Cons.prems \<open>tsent < length data\<close> Sent
        have "send_loop script sk data (tsent + n) e ?s1 = Some (f, e', s')"
          by (simp add: Let_def)
        from Cons.IH [OF this] s1 show ?thesis by simp
      qed
    next
      case (SocketError eagain)
      show ?thesis
      proof (cases "eagain \<and> sock ?s1 = Some sk")
        case True
        with Cons.prems \<open>tsent < length data\<close> SocketError
        have "send_loop script sk data tsent True ?s1 = Some (f, e', s')"
          by (simp add: Let_def)
        from Cons.IH [OF this] s1 show ?thesis by simp
      next
        case False
        with Cons.prems \<open>tsent < length data\<close> SocketError s1 show ?thesis
          by (auto simp: Let_def)
      qed
    qed
  qed
qed

lemma handshake_inv_send_message:
  assumes "handshake_inv s" "send_message script s msg = Some (r, s')"
  shows "handshake_inv s'"
proof (cases "sock s")
  case None
  with assms show ?thesis by (simp add: send_message_def)
next
  case (Some sk)
  with assms(2) obtain f e s1 where
    l: "send_loop script sk (core_str msg @ [LF]) 0 False s = Some (f, e, s1)"
    and s': "s' = s1 \<or> s' = disconnect (emit LogError s1)"
    by (auto simp: send_message_def split: option.splits if_splits)
  from send_loop_flags [OF l] assms(1) have "handshake_inv s1" by (simp add: handshake_inv_def)
  moreover then have "handshake_inv (disconnect (emit LogError s1))"
    by (auto simp: handshake_inv_def disconnect_def emit_def split: option.splits)
  ultimately show ?thesis using s' by auto
qed

lemma resolve_mid_flags:
  "resolve_mid s msg use_mid = (msg1, s1) \<Longrightarrow>
   server_supports_ids s1 = server_supports_ids s \<and>
   received_protocol_info s1 = received_protocol_info s \<and> sock s1 = sock s \<and> events s1 = events s"
  by (auto simp: resolve_mid_def next_id_def Let_def split: if_splits option.splits)

lemma handshake_inv_request:
  assumes "handshake_inv s" "DeviceClient_request script s msg use_mid = Some (r, msg', s')"
  shows "handshake_inv s'"
proof -
  obtain msg1 s1 where rm: "resolve_mid s msg use_mid = (msg1, s1)" by (cases "resolve_mid s msg use_mid")
  from resolve_mid_flags [OF rm] assms(1) have inv1: "handshake_inv s1"
    by (simp add: handshake_inv_def)
  from assms(2) rm have "s' = s \<or> s' = s1 \<or> (\<exists>r2. send_message script s1 msg1 = Some (r2, s'))"
    by (auto simp: DeviceClient_request_def split: if_splits option.splits)
  with assms(1) inv1 handshake_inv_send_message [OF inv1] show ?thesis by blast
qed


subsection \<open>The send loop\<close>

lemma send_loop_persistent_error:
  assumes "sock s = Some sk"
    and "\<forall>r\<in>set pre. r = SocketError True \<or> (\<exists>n. r = Sent n \<and> 0 < n)"
    and "tsent + sum_list (map sent_bytes pre) < length data"
  shows "\<exists>evs. send_loop (pre @ SocketError False # rest) sk data tsent e s
           = Some (True, True, s\<lparr>events := events s @ evs\<rparr>)"
  using assms
proof (induction pre arbitrary: tsent e s)
  case Nil
  then have "send_loop ([] @ SocketError False # rest) sk data tsent e s
      = Some (True, True, s\<lparr>events := events s @ [SockSend sk (drop tsent data)]\<rparr>)"
    by (simp add: emit_def)
  then show ?case by blast
next
  case (Cons r pre)
  let ?s1 = "emit (SockSend sk (drop tsent data)) s"
  have sk1: "sock ?s1 = Some sk" using Cons.prems(1) by (simp add: emit_def)
  have rest_ok: "\<forall>r\<in>set pre. r = SocketError True \<or> (\<exists>n. r = Sent n \<and> 0 < n)"
    using Cons.prems(2) by simp
  have lt: "tsent < length data" using Cons.prems(3) by simp
  from Cons.prems(2) consider (eagain) "r = SocketError True" | (sent) n where "r = Sent n" "0 < n"
    by auto
  then show ?case
  proof cases
    case eagain
    with Cons.prems(3) have "tsent + sum_list (map sent_bytes pre) < length data" by simp
    from Cons.IH [OF sk1 rest_ok this, of True] obtain evs where
      "send_loop (pre @ SocketError False # rest) sk data tsent True ?s1
         = Some (True, True, ?s1\<lparr>events := events ?s1 @ evs\<rparr>)" by blast
    with eagain lt sk1 have "send_loop ((r # pre) @ SocketError False # rest) sk data tsent e s
         = Some (True, True, s\<lparr>events := events s @ (SockSend sk (drop tsent data) # evs)\<rparr>)"
      by (simp add: emit_def)
    then show ?thesis by blast
  next
    case sent
    with Cons.prems(3) have "(tsent + n) + sum_list (map sent_bytes pre) < length data" by simp
    from Cons.IH [OF sk1 rest_ok this, of e] obtain evs where
      "send_loop (pre @ SocketError False # rest) sk data (tsent + n) e ?s1
         = Some (True, True, ?s1\<lparr>events := events ?s1 @ evs\<rparr>)" by blast
    with sent lt have "send_loop ((r # pre) @ SocketError False # rest) sk data tsent e s
         = Some (True, True, s\<lparr>events := events s @ (SockSend sk (drop tsent data) # evs)\<rparr>)"
      by (simp add: emit_def)
    then show ?thesis by blast
  qed
qed


subsection \<open>The blocking correlator\<close>

text \<open>The state in which \<^verbatim>\<open>blocking_request\<close> waits for the reply, after the handshake
  with a server that supports identifiers: the request went out as \<^verbatim>\<open>?x[1]\<close>.\<close>

lemma blocking_request_sent:
  "blocking_request_send [Sent 6]
       (inform_version_connect (\<lambda>v. True) version_connect_5 (connect_ok 1 BlockingClient_init))
       (Message_request ''x'' []) None
     = Some (Inr ((Message_request ''x'' [])\<lparr>mid := Some ''1''\<rparr>),
         \<lparr>sock = Some 1, connected_event = True, received_protocol_info = True,
          server_supports_ids = True, last_msg_id = 1,
          events = [NotifyConnected True, SockSend 1 (''?x[1]'' @ [LF])],
          current_name = Some ''x'', current_msg_id = Some ''1'', current_informs = Some [],
          current_reply = None, current_inform_count = Some 0, request_end = False\<rparr>)"
  by (simp add: blocking_request_send_def BlockingClient_init_def version_connect_5_def client_eval)

text \<open>A request sent without identifier is closed by its reply: what follows goes to the
  handlers of the base class and the stored reply stays.\<close>

lemma blocking_no_mid_straggler:
  assumes "current_msg_id s = None" "message_matches s r"
  shows "BlockingClient_handle_reply r' (BlockingClient_handle_reply r s)
           = emit (BaseHandleReply r') (BlockingClient_handle_reply r s) \<and>
         BlockingClient_handle_inform i (BlockingClient_handle_reply r s)
           = Inr (emit (BaseHandleInform i) (BlockingClient_handle_reply r s)) \<and>
         current_reply (BlockingClient_handle_reply r' (BlockingClient_handle_reply r s)) = Some r"
  using assms
  by (simp add: BlockingClient_handle_reply_def BlockingClient_handle_inform_def
        message_matches_def emit_def)


subsection \<open>The asynchronous correlator\<close>

text \<open>Popping by identifier, a reply whose identifier is not pending, and the states reached
  by one and by two requests on a connected client after the handshake.\<close>

lemma pop_by_id:
  assumes "async_queue s (Some i) = Some (req, rcb, icb, ud, tm)"
    and "async_id_stack s (name req) = Some ids" and "Some i \<in> set ids"
  shows "pop_async_request (Some i) None s
           = Inr (Some (req, rcb, icb, ud, tm),
                  s\<lparr>async_queue := (async_queue s)(Some i := None),
                    async_id_stack := (async_id_stack s)(name req \<mapsto> remove1 (Some i) ids)\<rparr>)"
  using assms by (simp add: pop_async_request_def Let_def)

lemma reply_by_id_unknown:
  assumes "mid r = Some i" and "async_queue s (Some i) = None"
  shows "CallbackClient_handle_reply r s = Inr (emit (BaseHandleReply r) s)"
  using assms
  by (simp add: CallbackClient_handle_reply_def pop_async_request_def deliver_reply_def Let_def)

lemma request_with_timeout_0_05:
  "CallbackClient_request [Sent 6]
       (inform_version_connect (\<lambda>v. True) version_connect_5
          (connect_ok 1 (CallbackClient_init (Some 5))))
       (Message_request ''x'' []) (Some 1) None None (Some float_0_05) None
     = Some (Inr (),
         \<lparr>sock = Some 1, connected_event = True, received_protocol_info = True,
          server_supports_ids = True, last_msg_id = 1,
          events = [NotifyConnected True, SockSend 1 (''?x[1]'' @ [LF]),
                    TimerStart \<lparr>interval = float_0_05, timer_args = Some ''1''\<rparr>],
          request_timeout = Some 5,
          async_queue = [Some ''1'' \<mapsto>
             ((Message_request ''x'' [])\<lparr>mid := Some ''1''\<rparr>, Some 1, None, None,
              Some \<lparr>interval = float_0_05, timer_args = Some ''1''\<rparr>)],
          async_id_stack = [''x'' \<mapsto> [Some ''1'']]\<rparr>)"
  by (simp add: callback_eval client_eval version_connect_5_def)


lemma first_request_pending:
  "CallbackClient_request [Sent 6]
       (inform_version_connect (\<lambda>v. True) version_connect_5
          (connect_ok 1 (CallbackClient_init (Some 5))))
       (Message_request ''x'' []) (Some 1) None None None None
   = Some (Inr (),
       \<lparr>sock = Some 1, connected_event = True, received_protocol_info = True,
        server_supports_ids = True, last_msg_id = 1,
        events = [NotifyConnected True, SockSend 1 (''?x[1]'' @ [LF]),
                  TimerStart \<lparr>interval = 5, timer_args = Some ''1''\<rparr>],
        request_timeout = Some 5,
        async_queue = [Some ''1'' \<mapsto>
           ((Message_request ''x'' [])\<lparr>mid := Some ''1''\<rparr>, Some 1, None, None,
            Some \<lparr>interval = 5, timer_args = Some ''1''\<rparr>)],
        async_id_stack = [''x'' \<mapsto> [Some ''1'']]\<rparr>)"
  by (simp add: callback_eval client_eval version_connect_5_def)

lemma second_request_pending:
  "CallbackClient_request [Sent 3]
       \<lparr>sock = Some 1, connected_event = True, received_protocol_info = True,
        server_supports_ids = True, last_msg_id = 1,
        events = [NotifyConnected True, SockSend 1 (''?x[1]'' @ [LF]),
                  TimerStart \<lparr>interval = 5, timer_args = Some ''1''\<rparr>],
        request_timeout = Some 5,
        async_queue = [Some ''1'' \<mapsto>
           ((Message_request ''x'' [])\<lparr>mid := Some ''1''\<rparr>, Some 1, None, None,
            Some \<lparr>interval = 5, timer_args = Some ''1''\<rparr>)],
        async_id_stack = [''x'' \<mapsto> [Some ''1'']]\<rparr>
       (Message_request ''x'' []) (Some 2) None None None (Some False)
   = Some (Inr (),
       \<lparr>sock = Some 1, connected_event = True, received_protocol_info = True,
        server_supports_ids = True, last_msg_id = 1,
        events = [NotifyConnected True, SockSend 1 (''?x[1]'' @ [LF]),
                  TimerStart \<lparr>interval = 5, timer_args = Some ''1''\<rparr>,
                  SockSend 1 (''?x'' @ [LF]),
                  TimerStart \<lparr>interval = 5, timer_args = None\<rparr>],
        request_timeout = Some 5,
        async_queue = [Some ''1'' \<mapsto>
           ((Message_request ''x'' [])\<lparr>mid := Some ''1''\<rparr>, Some 1, None, None,
            Some \<lparr>interval = 5, timer_args = Some ''1''\<rparr>),
          None \<mapsto>
           (Message_request ''x'' [], Some 2, None, None,
            Some \<lparr>interval = 5, timer_args = None\<rparr>)],
        async_id_stack = [''x'' \<mapsto> [Some ''1'', None]]\<rparr>)"
  by (simp add: callback_eval client_eval)

section \<open>The claims about the client\<close>

text \<open>
  Claim C2 (legacy reply matching), as stated.  With an older pending request \<^verbatim>\<open>?x[1]\<close>
  and a younger pending request \<^verbatim>\<open>?x\<close> without identifier (the state reached by lemmas
  \<open>first_request_pending\<close> and \<open>second_request_pending\<close>), a reply \<^verbatim>\<open>!x ok\<close> without
  identifier is not matched to the younger request: it goes to the handler of the base
  class and both requests stay pending.
\<close>

theorem legacy_reply_not_matched_to_younger:
  "CallbackClient_handle_reply (Message_reply ''x'' [''ok''])
     \<lparr>sock = Some 1, connected_event = True, received_protocol_info = True,
      server_supports_ids = True, last_msg_id = 1,
      events = [NotifyConnected True, SockSend 1 (''?x[1]'' @ [LF]),
                TimerStart \<lparr>interval = 5, timer_args = Some ''1''\<rparr>,
                SockSend 1 (''?x'' @ [LF]),
                TimerStart \<lparr>interval = 5, timer_args = None\<rparr>],
      request_timeout = Some 5,
      async_queue = [Some ''1'' \<mapsto>
         ((Message_request ''x'' [])\<lparr>mid := Some ''1''\<rparr>, Some 1, None, None,
          Some \<lparr>interval = 5, timer_args = Some ''1''\<rparr>),
        None \<mapsto>
         (Message_request ''x'' [], Some 2, None, None,
          Some \<lparr>interval = 5, timer_args = None\<rparr>)],
      async_id_stack = [''x'' \<mapsto> [Some ''1'', None]]\<rparr>
   = Inr
     \<lparr>sock = Some 1, connected_event = True, received_protocol_info = True,
      server_supports_ids = True, last_msg_id = 1,
      events = [NotifyConnected True, SockSend 1 (''?x[1]'' @ [LF]),
                TimerStart \<lparr>interval = 5, timer_args = Some ''1''\<rparr>,
                SockSend 1 (''?x'' @ [LF]),
                TimerStart \<lparr>interval = 5, timer_args = None\<rparr>,
                TimerCancel \<lparr>interval = 5, timer_args = Some ''1''\<rparr>,
                BaseHandleReply (Message_reply ''x'' [''ok''])],
      request_timeout = Some 5,
      async_queue = [Some ''1'' \<mapsto>
         ((Message_request ''x'' [])\<lparr>mid := Some ''1''\<rparr>, Some 1, None, None,
          Some \<lparr>interval = 5, timer_args = Some ''1''\<rparr>),
        None \<mapsto>
         (Message_request ''x'' [], Some 2, None, None,
          Some \<lparr>interval = 5, timer_args = None\<rparr>)],
      async_id_stack = [''x'' \<mapsto> [Some ''1'', None]]\<rparr>"
  by (simp add: callback_eval client_eval)


text \<open>
  Claim C2, amended.  For a reply without identifier \<^verbatim>\<open>handle_reply\<close> looks only at the
  oldest entry on the stack of the reply's name.  If that request carries an identifier, the
  reply goes to the handler of the base class and nothing is popped, whatever else is
  pending.  If the oldest entry stands for a request without identifier and that request is
  the only one pending without identifier (no other entry without identifier is on the stack
  of this or of any other name), it is popped, its timer is cancelled and its reply callback
  is called (the handler of the base class when it has none).  If nothing is on the stack of
  the name and no request without identifier is pending, the reply goes to the handler of the
  base class.
\<close>

theorem legacy_reply_inspects_oldest_only:
  assumes "mid msg = None"
  shows
    "(async_id_stack s (name msg) = Some (Some i # rest) \<and>
      async_queue s (Some i) = Some (req, rcb, icb, ud, tm) \<and> mid req \<noteq> None \<longrightarrow>
        (\<exists>ts s'. CallbackClient_handle_reply msg s = Inr s' \<and>
           async_queue s' = async_queue s \<and> async_id_stack s' = async_id_stack s \<and>
           events s' = events s @ map TimerCancel ts @ [BaseHandleReply msg])) \<and>
     (async_id_stack s (name msg) = Some (None # rest) \<and> None \<notin> set rest \<and>
      (\<forall>n ids. n \<noteq> name msg \<and> async_id_stack s n = Some ids \<longrightarrow> None \<notin> set ids) \<and>
      async_queue s None = Some (req, rcb, icb, ud, tm) \<and> name req = name msg \<and>
      mid req = None \<longrightarrow>
        (\<exists>s'. CallbackClient_handle_reply msg s = Inr s' \<and>
           async_queue s' = (async_queue s)(None := None) \<and>
           async_id_stack s' = (async_id_stack s)(name msg \<mapsto> rest) \<and>
           events s' = events s @ (case tm of Some t \<Rightarrow> [TimerCancel t] | None \<Rightarrow> [])
             @ [case rcb of Some cb \<Rightarrow> ReplyCb cb msg ud | None \<Rightarrow> BaseHandleReply msg])) \<and>
     ((async_id_stack s (name msg) = None \<or> async_id_stack s (name msg) = Some []) \<and>
      async_queue s None = None \<longrightarrow>
        CallbackClient_handle_reply msg s = Inr (emit (BaseHandleReply msg) s))"
proof -
  have c1: "\<exists>ts s'. CallbackClient_handle_reply msg s = Inr s' \<and>
           async_queue s' = async_queue s \<and> async_id_stack s' = async_id_stack s \<and>
           events s' = events s @ map TimerCancel ts @ [BaseHandleReply msg]"
    if st: "async_id_stack s (name msg) = Some (Some i # rest)"
      and q: "async_queue s (Some i) = Some (req, rcb, icb, ud, tm)" and m: "mid req \<noteq> None"
  proof -
    from st q have pk: "peek_async_request None (Some (name msg)) s = Some (req, rcb, icb, ud, tm)"
      by (simp add: peek_async_request_def msg_id_for_name_def)
    from m obtain j where "mid req = Some j" by auto
    with assms pk have r: "CallbackClient_handle_reply msg s = Inr (deliver_reply msg None None tm s)"
      by (simp add: CallbackClient_handle_reply_def)
    show ?thesis
    proof (cases tm)
      case None
      let ?s' = "emit (BaseHandleReply msg) s"
      from r None have "CallbackClient_handle_reply msg s = Inr ?s'"
        by (simp add: deliver_reply_def)
      moreover have "async_queue ?s' = async_queue s \<and> async_id_stack ?s' = async_id_stack s"
        by (simp add: emit_def)
      moreover have "events ?s' = events s @ map TimerCancel [] @ [BaseHandleReply msg]"
        by (simp add: emit_def)
      ultimately show ?thesis by blast
    next
      case (Some t)
      let ?s' = "emit (BaseHandleReply msg) (emit (TimerCancel t) s)"
      from r Some have "CallbackClient_handle_reply msg s = Inr ?s'"
        by (simp add: deliver_reply_def)
      moreover have "async_queue ?s' = async_queue s \<and> async_id_stack ?s' = async_id_stack s"
        by (simp add: emit_def)
      moreover have "events ?s' = events s @ map TimerCancel [t] @ [BaseHandleReply msg]"
        by (simp add: emit_def)
      ultimately show ?thesis by blast
    qed
  qed
  have c2: "\<exists>s'. CallbackClient_handle_reply msg s = Inr s' \<and>
           async_queue s' = (async_queue s)(None := None) \<and>
           async_id_stack s' = (async_id_stack s)(name msg \<mapsto> rest) \<and>
           events s' = events s @ (case tm of Some t \<Rightarrow> [TimerCancel t] | None \<Rightarrow> [])
             @ [case rcb of Some cb \<Rightarrow> ReplyCb cb msg ud | None \<Rightarrow> BaseHandleReply msg]"
    if st: "async_id_stack s (name msg) = Some (None # rest)"
      and q: "async_queue s None = Some (req, rcb, icb, ud, tm)"
      and n: "name req = name msg" and m: "mid req = None"
  proof -
    let ?p = "s\<lparr>async_queue := (async_queue s)(None := None),
                 async_id_stack := (async_id_stack s)(name msg \<mapsto> rest)\<rparr>"
    from st q have pk: "peek_async_request None (Some (name msg)) s = Some (req, rcb, icb, ud, tm)"
      by (simp add: peek_async_request_def msg_id_for_name_def)
    from st q n have pp: "pop_async_request None (Some (name msg)) s
        = Inr (Some (req, rcb, icb, ud, tm), ?p)"
      by (simp add: pop_async_request_def msg_id_for_name_def Let_def)
    from assms pk pp m
    have r: "CallbackClient_handle_reply msg s = Inr (deliver_reply msg rcb ud tm ?p)"
      by (simp add: CallbackClient_handle_reply_def)
    have "async_queue (deliver_reply msg rcb ud tm ?p) = (async_queue s)(None := None)"
      by (simp add: deliver_reply_def emit_def Let_def split: option.splits)
    moreover have "async_id_stack (deliver_reply msg rcb ud tm ?p)
        = (async_id_stack s)(name msg \<mapsto> rest)"
      by (simp add: deliver_reply_def emit_def Let_def split: option.splits)
    moreover have "events (deliver_reply msg rcb ud tm ?p)
        = events s @ (case tm of Some t \<Rightarrow> [TimerCancel t] | None \<Rightarrow> [])
             @ [case rcb of Some cb \<Rightarrow> ReplyCb cb msg ud | None \<Rightarrow> BaseHandleReply msg]"
      by (simp add: deliver_reply_def emit_def Let_def split: option.splits)
    ultimately show ?thesis using r by blast
  qed
  have c3: "CallbackClient_handle_reply msg s = Inr (emit (BaseHandleReply msg) s)"
    if st: "async_id_stack s (name msg) = None \<or> async_id_stack s (name msg) = Some []"
      and q: "async_queue s None = None"
  proof -
    from st q have "peek_async_request None (Some (name msg)) s = None"
      by (auto simp: peek_async_request_def msg_id_for_name_def)
    with assms show ?thesis
      by (simp add: CallbackClient_handle_reply_def deliver_reply_def)
  qed
  from c1 c2 c3 show ?thesis by blast
qed

theorem legacy_reply_inspects_oldest_only_witness:
  "(\<exists>ts s'. CallbackClient_handle_reply (Message_reply ''x'' [''ok''])
        (push_async_request None (Message_request ''x'' []) (Some 2) None None None
           (push_async_request (Some ''1'') ((Message_request ''x'' [])\<lparr>mid := Some ''1''\<rparr>)
              (Some 1) None None None (CallbackClient_init None))) = Inr s' \<and>
      async_queue s' (Some ''1'')
        = Some ((Message_request ''x'' [])\<lparr>mid := Some ''1''\<rparr>, Some 1, None, None, None) \<and>
      async_queue s' None = Some (Message_request ''x'' [], Some 2, None, None, None) \<and>
      async_id_stack s' ''x'' = Some [Some ''1'', None] \<and>
      events s' = map TimerCancel ts @ [BaseHandleReply (Message_reply ''x'' [''ok''])]) \<and>
   (\<exists>s'. CallbackClient_handle_reply (Message_reply ''x'' [''ok''])
        (push_async_request None (Message_request ''x'' []) (Some 2) None None None
           (CallbackClient_init None)) = Inr s' \<and>
      async_queue s' None = None \<and> async_id_stack s' ''x'' = Some [] \<and>
      events s' = [ReplyCb 2 (Message_reply ''x'' [''ok'']) None]) \<and>
   CallbackClient_handle_reply (Message_reply ''x'' [''ok'']) (CallbackClient_init None)
     = Inr (emit (BaseHandleReply (Message_reply ''x'' [''ok''])) (CallbackClient_init None))"
proof -
  let ?m = "Message_reply ''x'' [''ok'']"
  let ?r1 = "(Message_request ''x'' [])\<lparr>mid := Some ''1''\<rparr>"
  let ?r2 = "Message_request ''x'' []"
  let ?s0 = "CallbackClient_init None"
  let ?s2 = "push_async_request None ?r2 (Some 2) None None None ?s0"
  let ?s12 = "push_async_request None ?r2 (Some 2) None None None
                (push_async_request (Some ''1'') ?r1 (Some 1) None None None ?s0)"
  have m: "mid ?m = None" by (simp add: Message_reply_def)
  have a1: "async_id_stack ?s12 (name ?m) = Some (Some ''1'' # [None]) \<and>
      async_queue ?s12 (Some ''1'') = Some (?r1, Some 1, None, None, None) \<and> mid ?r1 \<noteq> None"
    by (simp add: push_async_request_def CallbackClient_init_def Message_reply_def
          Message_request_def)
  from legacy_reply_inspects_oldest_only [OF m, of ?s12 "''1''" "[None]" ?r1 "Some 1" None None None]
    a1
  obtain ts s' where w1: "CallbackClient_handle_reply ?m ?s12 = Inr s'"
    "async_queue s' = async_queue ?s12" "async_id_stack s' = async_id_stack ?s12"
    "events s' = events ?s12 @ map TimerCancel ts @ [BaseHandleReply ?m]"
    by blast
  from w1(2) have q1: "async_queue s' (Some ''1'') = Some (?r1, Some 1, None, None, None) \<and>
      async_queue s' None = Some (?r2, Some 2, None, None, None)"
    by (simp add: push_async_request_def CallbackClient_init_def Message_request_def)
  from w1(3) have k1: "async_id_stack s' ''x'' = Some [Some ''1'', None]"
    by (simp add: push_async_request_def CallbackClient_init_def Message_request_def)
  from w1(4) have e1: "events s' = map TimerCancel ts @ [BaseHandleReply ?m]"
    by (simp add: push_async_request_def CallbackClient_init_def)
  have a2: "async_id_stack ?s2 (name ?m) = Some (None # []) \<and> None \<notin> set [] \<and>
      (\<forall>n ids. n \<noteq> name ?m \<and> async_id_stack ?s2 n = Some ids \<longrightarrow> None \<notin> set ids) \<and>
      async_queue ?s2 None = Some (?r2, Some 2, None, None, None) \<and> name ?r2 = name ?m \<and>
      mid ?r2 = None"
    by (simp add: push_async_request_def CallbackClient_init_def Message_reply_def
          Message_request_def)
  from legacy_reply_inspects_oldest_only [OF m, of ?s2 _ "[]" ?r2 "Some 2" None None None] a2
  obtain s'' where w2: "CallbackClient_handle_reply ?m ?s2 = Inr s''"
    "async_queue s'' = (async_queue ?s2)(None := None)"
    "async_id_stack s'' = (async_id_stack ?s2)(name ?m \<mapsto> [])"
    "events s'' = events ?s2 @ (case None of Some t \<Rightarrow> [TimerCancel t] | None \<Rightarrow> [])
       @ [case Some 2 of Some cb \<Rightarrow> ReplyCb cb ?m None | None \<Rightarrow> BaseHandleReply ?m]"
    by blast
  from w2(2) have q2: "async_queue s'' None = None" by simp
  from w2(3) have k2: "async_id_stack s'' ''x'' = Some []" by (simp add: Message_reply_def)
  from w2(4) have e2: "events s'' = [ReplyCb 2 ?m None]"
    by (simp add: push_async_request_def CallbackClient_init_def)
  have a3: "(async_id_stack ?s0 (name ?m) = None \<or> async_id_stack ?s0 (name ?m) = Some []) \<and>
      async_queue ?s0 None = None"
    by (simp add: CallbackClient_init_def)
  from legacy_reply_inspects_oldest_only [OF m, of ?s0] a3
  have w3: "CallbackClient_handle_reply ?m ?s0 = Inr (emit (BaseHandleReply ?m) ?s0)"
    by blast
  from w1(1) q1 k1 e1 w2(1) q2 k2 e2 w3 show ?thesis by blast
qed

text \<open>
  Claim C3 (synthetic failure on send error).  A request made while the client is not
  connected fails in \<^verbatim>\<open>send_message\<close> with \<open>KatcpClientError\<close>; the message that reaches
  the reply callback has the request's name and first argument \<^verbatim>\<open>fail\<close>, but its type is
  \<open>REQUEST\<close>: it is built with \<^verbatim>\<open>Message.request\<close>, not \<^verbatim>\<open>Message.reply\<close>.
\<close>

theorem send_error_reply_is_request:
  "CallbackClient_request [] (CallbackClient_init (Some 5)) (Message_request ''x'' [])
       (Some 7) None None None None
     = Some (Inr (),
         \<lparr>sock = None, connected_event = False, received_protocol_info = False,
          server_supports_ids = False, last_msg_id = 0,
          events = [TimerStart \<lparr>interval = 5, timer_args = None\<rparr>,
                    TimerCancel \<lparr>interval = 5, timer_args = None\<rparr>,
                    ReplyCb 7 \<lparr>mtype = REQUEST, name = ''x'',
                              arguments = [''fail'', ''Client not connected''], mid = None\<rparr> None],
          request_timeout = Some 5, async_queue = Map.empty,
          async_id_stack = [''x'' \<mapsto> []]\<rparr>)"
  by (simp add: CallbackClient_request_def CallbackClient_init_def client_eval
        push_async_request_def CallbackClient_handle_reply_def peek_async_request_def
        pop_async_request_def msg_id_for_name_def deliver_reply_def)

text \<open>
  Claim C4 (identifier gating by protocol version), for request messages, which is what
  \<^verbatim>\<open>DeviceClient.request\<close> asserts.  (a) While no handshake has been received, the default
  \<^verbatim>\<open>use_mid=None\<close> leaves the message and the identifier counter as they are and behaves as
  \<^verbatim>\<open>use_mid=False\<close>.  (b) When the server does not support identifiers and the message
  carries one, the call raises \<open>KatcpVersionError\<close> and the client is unchanged: nothing
  has been sent.  That no handshake means no support is the invariant \<open>handshake_inv\<close>,
  which holds initially and is kept by every operation (lemmas \<open>handshake_inv_init\<close> to
  \<open>handshake_inv_request\<close>).
\<close>

theorem mid_version_gating:
  assumes "mtype msg = REQUEST"
  shows "(handshake_inv s \<and> \<not> received_protocol_info s \<longrightarrow>
            resolve_mid s msg None = (msg, s) \<and>
            DeviceClient_request script s msg None = DeviceClient_request script s msg (Some False)) \<and>
         (\<not> server_supports_ids s \<and> mid msg \<noteq> None \<longrightarrow>
            DeviceClient_request script s msg use_mid = Some (Inl KatcpVersionError, msg, s))"
proof -
  have a: "resolve_mid s msg None = (msg, s) \<and>
      DeviceClient_request script s msg None = DeviceClient_request script s msg (Some False)"
    if "handshake_inv s" "\<not> received_protocol_info s"
  proof -
    from that have "\<not> server_supports_ids s" by (auto simp: handshake_inv_def)
    then show ?thesis by (simp add: resolve_mid_def DeviceClient_request_def)
  qed
  have b: "DeviceClient_request script s msg use_mid = Some (Inl KatcpVersionError, msg, s)"
    if "\<not> server_supports_ids s" "mid msg \<noteq> None"
  proof -
    from that(2) have "resolve_mid s msg use_mid = (msg, s)"
      by (auto simp: resolve_mid_def Let_def split: option.splits)
    with that assms show ?thesis by (simp add: DeviceClient_request_def)
  qed
  from a b show ?thesis by blast
qed

theorem mid_version_gating_witness:
  "mtype (Message_request ''x'' []) = REQUEST \<and>
   handshake_inv (connect_ok 1 DeviceClient_init) \<and>
   \<not> received_protocol_info (connect_ok 1 DeviceClient_init) \<and>
   resolve_mid (connect_ok 1 DeviceClient_init) (Message_request ''x'' []) None
     = (Message_request ''x'' [], connect_ok 1 DeviceClient_init) \<and>
   DeviceClient_request [Sent 3] (connect_ok 1 DeviceClient_init) (Message_request ''x'' []) None
     = DeviceClient_request [Sent 3] (connect_ok 1 DeviceClient_init) (Message_request ''x'' [])
         (Some False) \<and>
   mtype ((Message_request ''x'' [])\<lparr>mid := Some ''7''\<rparr>) = REQUEST \<and>
   \<not> server_supports_ids (connect_ok 1 DeviceClient_init) \<and>
   mid ((Message_request ''x'' [])\<lparr>mid := Some ''7''\<rparr>) \<noteq> None \<and>
   DeviceClient_request [Sent 6] (connect_ok 1 DeviceClient_init)
       ((Message_request ''x'' [])\<lparr>mid := Some ''7''\<rparr>) (Some True)
     = Some (Inl KatcpVersionError, (Message_request ''x'' [])\<lparr>mid := Some ''7''\<rparr>,
             connect_ok 1 DeviceClient_init)"
proof -
  let ?s = "connect_ok 1 DeviceClient_init"
  let ?m = "Message_request ''x'' []"
  have m: "mtype ?m = REQUEST" by (simp add: Message_request_def)
  have m7: "mtype (?m\<lparr>mid := Some ''7''\<rparr>) = REQUEST" by (simp add: Message_request_def)
  have h: "handshake_inv ?s \<and> \<not> received_protocol_info ?s"
    by (simp add: handshake_inv_def connect_ok_def emit_def DeviceClient_init_def)
  have n: "\<not> server_supports_ids ?s \<and> mid (?m\<lparr>mid := Some ''7''\<rparr>) \<noteq> None"
    by (simp add: connect_ok_def emit_def DeviceClient_init_def)
  from mid_version_gating [OF m, of ?s "[Sent 3]"] h
  have a: "resolve_mid ?s ?m None = (?m, ?s) \<and>
      DeviceClient_request [Sent 3] ?s ?m None = DeviceClient_request [Sent 3] ?s ?m (Some False)"
    by blast
  from mid_version_gating [OF m7, of ?s "[Sent 6]" "Some True"] n
  have b: "DeviceClient_request [Sent 6] ?s (?m\<lparr>mid := Some ''7''\<rparr>) (Some True)
      = Some (Inl KatcpVersionError, ?m\<lparr>mid := Some ''7''\<rparr>, ?s)"
    by blast
  from m m7 h n a b show ?thesis by blast
qed

text \<open>
  Claim C5 (blocking straggler exclusion).  A blocking request sent with identifier 1 is
  answered by \<^verbatim>\<open>!x[1] ok\<close>.  \<^verbatim>\<open>handle_reply\<close> clears \<^verbatim>\<open>_current_name\<close> but not
  \<^verbatim>\<open>_current_msg_id\<close>, so a second reply \<^verbatim>\<open>!x[1] fail\<close> still matches: it overwrites the
  stored reply and is not passed to the base class, and an inform \<^verbatim>\<open>#x[1]\<close> arriving after
  the reply is still collected.  (Lemma \<open>blocking_no_mid_straggler\<close>: without identifier
  the claim holds.)
\<close>

theorem blocking_straggler_with_mid_still_matches:
  "blocking_request_send [Sent 6]
       (inform_version_connect (\<lambda>v. True) version_connect_5 (connect_ok 1 BlockingClient_init))
       (Message_request ''x'' []) None
     = Some (Inr ((Message_request ''x'' [])\<lparr>mid := Some ''1''\<rparr>),
         \<lparr>sock = Some 1, connected_event = True, received_protocol_info = True,
          server_supports_ids = True, last_msg_id = 1,
          events = [NotifyConnected True, SockSend 1 (''?x[1]'' @ [LF])],
          current_name = Some ''x'', current_msg_id = Some ''1'', current_informs = Some [],
          current_reply = None, current_inform_count = Some 0, request_end = False\<rparr>) \<and>
   BlockingClient_handle_reply ((Message_reply ''x'' [''fail''])\<lparr>mid := Some ''1''\<rparr>)
     (BlockingClient_handle_reply ((Message_reply ''x'' [''ok''])\<lparr>mid := Some ''1''\<rparr>)
        \<lparr>sock = Some 1, connected_event = True, received_protocol_info = True,
         server_supports_ids = True, last_msg_id = 1,
         events = [NotifyConnected True, SockSend 1 (''?x[1]'' @ [LF])],
         current_name = Some ''x'', current_msg_id = Some ''1'', current_informs = Some [],
         current_reply = None, current_inform_count = Some 0, request_end = False\<rparr>)
   = \<lparr>sock = Some 1, connected_event = True, received_protocol_info = True,
      server_supports_ids = True, last_msg_id = 1,
      events = [NotifyConnected True, SockSend 1 (''?x[1]'' @ [LF])],
      current_name = None, current_msg_id = Some ''1'', current_informs = Some [],
      current_reply = Some ((Message_reply ''x'' [''fail''])\<lparr>mid := Some ''1''\<rparr>),
      current_inform_count = Some 0, request_end = True\<rparr> \<and>
   BlockingClient_handle_inform \<lparr>mtype = INFORM, name = ''x'', arguments = [], mid = Some ''1''\<rparr>
     (BlockingClient_handle_reply ((Message_reply ''x'' [''ok''])\<lparr>mid := Some ''1''\<rparr>)
        \<lparr>sock = Some 1, connected_event = True, received_protocol_info = True,
         server_supports_ids = True, last_msg_id = 1,
         events = [NotifyConnected True, SockSend 1 (''?x[1]'' @ [LF])],
         current_name = Some ''x'', current_msg_id = Some ''1'', current_informs = Some [],
         current_reply = None, current_inform_count = Some 0, request_end = False\<rparr>)
   = Inr \<lparr>sock = Some 1, connected_event = True, received_protocol_info = True,
      server_supports_ids = True, last_msg_id = 1,
      events = [NotifyConnected True, SockSend 1 (''?x[1]'' @ [LF])],
      current_name = None, current_msg_id = Some ''1'',
      current_informs = Some [\<lparr>mtype = INFORM, name = ''x'', arguments = [], mid = Some ''1''\<rparr>],
      current_reply = Some ((Message_reply ''x'' [''ok''])\<lparr>mid := Some ''1''\<rparr>),
      current_inform_count = Some 0, request_end = True\<rparr>"
  by (simp add: blocking_request_send_def BlockingClient_init_def version_connect_5_def client_eval
        BlockingClient_handle_reply_def BlockingClient_handle_inform_def message_matches_def)

text \<open>
  Claim C6 (send failure surfacing), as stated.  On a connected client a non-transient
  socket error makes \<^verbatim>\<open>send_message\<close> log the failure and disconnect, and then return
  normally: the caller sees no error.  A send of 0 bytes with no earlier socket error raises
  \<open>UnboundLocalError\<close> while the log message is formatted, before the disconnect: the
  client stays connected.
\<close>

theorem send_failure_not_surfaced:
  "send_message [SocketError False] (connect_ok 1 DeviceClient_init) (Message_request ''x'' [])
     = Some (Inr (),
         \<lparr>sock = None, connected_event = False, received_protocol_info = False,
          server_supports_ids = False, last_msg_id = 0,
          events = [NotifyConnected True, SockSend 1 (''?x'' @ [LF]), LogError, SockClose 1,
                    NotifyConnected False]\<rparr>) \<and>
   send_message [Sent 0] (connect_ok 1 DeviceClient_init) (Message_request ''x'' [])
     = Some (Inl UnboundLocalError,
         \<lparr>sock = Some 1, connected_event = True, received_protocol_info = False,
          server_supports_ids = False, last_msg_id = 0,
          events = [NotifyConnected True, SockSend 1 (''?x'' @ [LF])]\<rparr>)"
  by (simp add: send_message_def connect_ok_def DeviceClient_init_def emit_def Message_request_def
        core_str_def disconnect_def)


text \<open>
  Claim C6, amended.  When the socket write fails with a non-transient socket error, after
  any number of retries on the transient error and of partial sends that leave bytes to
  send, \<^verbatim>\<open>send_message\<close> logs the failure, disconnects (the socket is closed,
  \<^verbatim>\<open>_connected\<close> is cleared and \<^verbatim>\<open>notify_connected(False)\<close> is called) and returns
  normally: the failure is not raised to the caller.
\<close>

theorem send_error_disconnects_and_returns:
  assumes "sock s = Some sk"
    and "\<forall>r\<in>set pre. r = SocketError True \<or> (\<exists>n. r = Sent n \<and> 0 < n)"
    and "sum_list (map sent_bytes pre) < length (core_str msg @ [LF])"
  shows "\<exists>evs. send_message (pre @ SocketError False # rest) s msg
           = Some (Inr (),
               s\<lparr>sock := None, connected_event := False,
                 events := events s @ evs @ [LogError, SockClose sk, NotifyConnected False]\<rparr>)"
proof -
  from assms(3) have "0 + sum_list (map sent_bytes pre) < length (core_str msg @ [LF])" by simp
  from send_loop_persistent_error [OF assms(1,2) this, of rest False] obtain evs where
    "send_loop (pre @ SocketError False # rest) sk (core_str msg @ [LF]) 0 False s
       = Some (True, True, s\<lparr>events := events s @ evs\<rparr>)" by blast
  with assms(1) have "send_message (pre @ SocketError False # rest) s msg
      = Some (Inr (),
          s\<lparr>sock := None, connected_event := False,
            events := events s @ evs @ [LogError, SockClose sk, NotifyConnected False]\<rparr>)"
    by (simp add: send_message_def disconnect_def emit_def)
  then show ?thesis by blast
qed

theorem send_error_disconnects_and_returns_witness:
  "send_message [SocketError True, Sent 2, SocketError False]
       (connect_ok 1 DeviceClient_init) (Message_request ''x'' [])
     = Some (Inr (),
         \<lparr>sock = None, connected_event = False, received_protocol_info = False,
          server_supports_ids = False, last_msg_id = 0,
          events = [NotifyConnected True, SockSend 1 (''?x'' @ [LF]), SockSend 1 (''?x'' @ [LF]),
                    SockSend 1 [LF], LogError, SockClose 1, NotifyConnected False]\<rparr>)"
proof -
  have h1: "sock (connect_ok 1 DeviceClient_init) = Some 1"
    by (simp add: connect_ok_def emit_def DeviceClient_init_def)
  have h2: "\<forall>r\<in>set [SocketError True, Sent 2]. r = SocketError True \<or> (\<exists>n. r = Sent n \<and> 0 < n)"
    by simp
  have h3: "sum_list (map sent_bytes [SocketError True, Sent 2])
      < length (core_str (Message_request ''x'' []) @ [LF])"
    by (simp add: core_str_def Message_request_def)
  from send_error_disconnects_and_returns [OF h1 h2 h3, of "[]"] obtain evs where
    "send_message ([SocketError True, Sent 2] @ [SocketError False])
         (connect_ok 1 DeviceClient_init) (Message_request ''x'' [])
       = Some (Inr (),
           (connect_ok 1 DeviceClient_init)\<lparr>sock := None, connected_event := False,
             events := events (connect_ok 1 DeviceClient_init) @ evs
                         @ [LogError, SockClose 1, NotifyConnected False]\<rparr>)"
    by blast
  moreover have "send_message ([SocketError True, Sent 2] @ [SocketError False])
         (connect_ok 1 DeviceClient_init) (Message_request ''x'' [])
       = Some (Inr (),
         \<lparr>sock = None, connected_event = False, received_protocol_info = False,
          server_supports_ids = False, last_msg_id = 0,
          events = [NotifyConnected True, SockSend 1 (''?x'' @ [LF]), SockSend 1 (''?x'' @ [LF]),
                    SockSend 1 [LF], LogError, SockClose 1, NotifyConnected False]\<rparr>)"
    by (simp add: send_message_def connect_ok_def DeviceClient_init_def emit_def
          Message_request_def core_str_def disconnect_def Let_def)
  ultimately show ?thesis by simp
qed

text \<open>
  Claim C9 (timeout failure message), as stated.  A request \<^verbatim>\<open>?x[1]\<close> armed with
  \<^verbatim>\<open>timeout=0.05\<close> is pending (the state reached by lemma \<open>request_with_timeout_0_05\<close>).
  When the timer fires the reply callback receives \<^verbatim>\<open>!x fail\<close> with the reason
  \<^verbatim>\<open>Timed out after 0.050000 seconds\<close>, as \<^verbatim>\<open>%f\<close> prints six decimals; the reason is not
  \<^verbatim>\<open>Timed out after 0.05 seconds\<close>.
\<close>

theorem timeout_reason_is_percent_f:
  "handle_timeout (Some ''1'')
     \<lparr>sock = Some 1, connected_event = True, received_protocol_info = True,
      server_supports_ids = True, last_msg_id = 1,
      events = [NotifyConnected True, SockSend 1 (''?x[1]'' @ [LF]),
                TimerStart \<lparr>interval = float_0_05, timer_args = Some ''1''\<rparr>],
      request_timeout = Some 5,
      async_queue = [Some ''1'' \<mapsto>
         ((Message_request ''x'' [])\<lparr>mid := Some ''1''\<rparr>, Some 1, None, None,
          Some \<lparr>interval = float_0_05, timer_args = Some ''1''\<rparr>)],
      async_id_stack = [''x'' \<mapsto> [Some ''1'']]\<rparr>
   = Inr
     \<lparr>sock = Some 1, connected_event = True, received_protocol_info = True,
      server_supports_ids = True, last_msg_id = 1,
      events = [NotifyConnected True, SockSend 1 (''?x[1]'' @ [LF]),
                TimerStart \<lparr>interval = float_0_05, timer_args = Some ''1''\<rparr>,
                ReplyCb 1 \<lparr>mtype = REPLY, name = ''x'',
                   arguments = [''fail'', ''Timed out after 0.050000 seconds''], mid = None\<rparr> None],
      request_timeout = Some 5,
      async_queue = Map.empty,
      async_id_stack = [''x'' \<mapsto> []]\<rparr> \<and>
   ''Timed out after 0.050000 seconds'' \<noteq> ''Timed out after 0.05 seconds''"
  by (simp add: callback_eval client_eval format_f_float_0_05)


text \<open>
  Claim C9, amended.  For a pending request with identifier, reply callback and timer, the
  timeout handler calls the reply callback once with a fail reply for the request's name
  whose reason is \<^verbatim>\<open>"Timed out after %f seconds" % timer.interval\<close>, which for the interval
  0.05 is \<^verbatim>\<open>Timed out after 0.050000 seconds\<close>; a reply with the same identifier that
  arrives afterwards goes to the handler of the base class and the reply callback is not
  called again.
\<close>

theorem timeout_fail_reply_then_late_reply:
  assumes "async_queue s (Some i) = Some (req, Some cb, icb, ud, Some t)"
    and "async_id_stack s (name req) = Some ids" and "Some i \<in> set ids"
    and "mid r = Some i"
  shows "\<exists>s1 s2.
           handle_timeout (Some i) s = Inr s1 \<and>
           events s1 = events s @
             [ReplyCb cb (Message_reply (name req)
                [''fail'', ''Timed out after '' @ format_f (interval t) @ '' seconds'']) ud] \<and>
           CallbackClient_handle_reply r s1 = Inr s2 \<and>
           events s2 = events s1 @ [BaseHandleReply r] \<and>
           (interval t = float_0_05 \<longrightarrow>
              ''Timed out after '' @ format_f (interval t) @ '' seconds''
                = ''Timed out after 0.050000 seconds'')"
proof -
  let ?p = "s\<lparr>async_queue := (async_queue s)(Some i := None),
               async_id_stack := (async_id_stack s)(name req \<mapsto> remove1 (Some i) ids)\<rparr>"
  let ?s1 = "emit (ReplyCb cb (Message_reply (name req)
                [''fail'', ''Timed out after '' @ format_f (interval t) @ '' seconds'']) ud) ?p"
  have t: "handle_timeout (Some i) s = Inr ?s1"
    using pop_by_id [OF assms(1,2,3)] by (simp add: handle_timeout_def do_fail_callback_def)
  have e1: "events ?s1 = events s @
             [ReplyCb cb (Message_reply (name req)
                [''fail'', ''Timed out after '' @ format_f (interval t) @ '' seconds'']) ud]"
    by (simp add: emit_def)
  have "async_queue ?s1 (Some i) = None" by (simp add: emit_def)
  from reply_by_id_unknown [OF assms(4) this]
  have r: "CallbackClient_handle_reply r ?s1 = Inr (emit (BaseHandleReply r) ?s1)" .
  have e2: "events (emit (BaseHandleReply r) ?s1) = events ?s1 @ [BaseHandleReply r]"
    by (simp add: emit_def)
  have f: "interval t = float_0_05 \<longrightarrow>
              ''Timed out after '' @ format_f (interval t) @ '' seconds''
                = ''Timed out after 0.050000 seconds''"
    by (simp add: format_f_float_0_05)
  from t e1 r e2 f show ?thesis by blast
qed

theorem timeout_fail_reply_then_late_reply_witness:
  "\<exists>s1 s2.
     handle_timeout (Some ''1'')
       \<lparr>sock = Some 1, connected_event = True, received_protocol_info = True,
        server_supports_ids = True, last_msg_id = 1,
        events = [],
        request_timeout = Some 5,
        async_queue = [Some ''1'' \<mapsto>
           ((Message_request ''x'' [])\<lparr>mid := Some ''1''\<rparr>, Some 1, None, None,
            Some \<lparr>interval = float_0_05, timer_args = Some ''1''\<rparr>)],
        async_id_stack = [''x'' \<mapsto> [Some ''1'']]\<rparr> = Inr s1 \<and>
     events s1 = [ReplyCb 1 (Message_reply ''x'' [''fail'', ''Timed out after 0.050000 seconds''])
                    None] \<and>
     CallbackClient_handle_reply ((Message_reply ''x'' [''ok''])\<lparr>mid := Some ''1''\<rparr>) s1 = Inr s2 \<and>
     events s2 = [ReplyCb 1 (Message_reply ''x'' [''fail'', ''Timed out after 0.050000 seconds''])
                    None,
                  BaseHandleReply ((Message_reply ''x'' [''ok''])\<lparr>mid := Some ''1''\<rparr>)]"
proof -
  let ?req = "(Message_request ''x'' [])\<lparr>mid := Some ''1''\<rparr>"
  let ?t = "\<lparr>interval = float_0_05, timer_args = Some ''1''\<rparr>"
  let ?s = "\<lparr>sock = Some 1, connected_event = True, received_protocol_info = True,
        server_supports_ids = True, last_msg_id = 1,
        events = [],
        request_timeout = Some 5,
        async_queue = [Some ''1'' \<mapsto> (?req, Some 1, None, None, Some ?t)],
        async_id_stack = [''x'' \<mapsto> [Some ''1'']]\<rparr>"
  let ?r = "(Message_reply ''x'' [''ok''])\<lparr>mid := Some ''1''\<rparr>"
  have h1: "async_queue ?s (Some ''1'') = Some (?req, Some 1, None, None, Some ?t)" by simp
  have h2: "async_id_stack ?s (name ?req) = Some [Some ''1'']"
    by (simp add: Message_request_def)
  have h3: "Some ''1'' \<in> set [Some ''1'']" by simp
  have h4: "mid ?r = Some ''1''" by simp
  from timeout_fail_reply_then_late_reply [OF h1 h2 h3 h4] obtain s1 s2 where
    a: "handle_timeout (Some ''1'') ?s = Inr s1" and
    b: "events s1 = events ?s @
             [ReplyCb 1 (Message_reply (name ?req)
                [''fail'', ''Timed out after '' @ format_f (interval ?t) @ '' seconds'']) None]" and
    c: "CallbackClient_handle_reply ?r s1 = Inr s2" and
    d: "events s2 = events s1 @ [BaseHandleReply ?r]"
    by blast
  from b have b': "events s1
      = [ReplyCb 1 (Message_reply ''x'' [''fail'', ''Timed out after 0.050000 seconds'']) None]"
    by (simp add: Message_request_def format_f_float_0_05)
  from d b' have d': "events s2
      = [ReplyCb 1 (Message_reply ''x'' [''fail'', ''Timed out after 0.050000 seconds'']) None,
         BaseHandleReply ?r]"
    by simp
  from a b' c d' show ?thesis by blast
qed

end
